theory Spec2Isabelle
  imports Main "HOL-Library.Word"
begin

unbundle bit_operations_syntax

section \<open>The serial port, the environment and the effects of a worker\<close>

text \<open>
  The programmer talks to one SuperChis cartridge over a serial port. Python integers are
  unbounded and are modelled as \<open>int\<close>; bytes are \<open>8 word\<close>. What leaves the host is
  recorded in order (\<open>wire\<close>: every \<open>ser.write\<close> and every \<open>time.sleep\<close>); what the
  cartridge answers is the environment \<open>dev\<close>: \<open>dev k\<close> holds the bytes that arrive for
  the \<open>k\<close>-th call of \<open>ser.read\<close>, of which the call returns at most the number it asked
  for (a short or empty list is a read that timed out). The port is assumed to stay open.

  A worker thread also emits Qt signals (\<open>signals\<close>), reads its flag \<open>self.running\<close>,
  which another thread may clear at any time (\<open>running k\<close> is the value the \<open>k\<close>-th read
  of the flag sees), draws random numbers (\<open>rng\<close>) and, for a backup, writes a file
  (\<open>sink\<close>).
\<close>

type_synonym byte = "8 word"

datatype action = Tx "byte list" | Sleep nat

datatype failure =
    SramBasicFailed
  | SramFullFailed int
  | FlashEraseVerifyFailed int
  | BackupFlashFailed
  | MetadataVerifyFailed
  | ProgramFailed int int int
  | VerifyFailed int

datatype error = StructError | ValueError | ZeroDivisionError | Failure failure

datatype qa_log =
    QaStarted | QaNoTestEnabled
  | QaStepSramBasic int int | QaSramBasicPassed
  | QaStepSramFull int int | QaSramBank int | QaSramFullPassed
  | QaStepPpbUnlock int int | QaPpbUnlocked
  | QaStepFastFlash int int | QaErasedSectors int int | QaFastFlashPassed
  | QaStepFlashErase int int | QaFlashNotEmpty | QaFlashErased | QaFlashAlreadyEmpty
  | QaStepBackupFlash int int | QaBackupFlashPassed "byte list" "byte list"
  | QaDone | QaFailed error

datatype reset_log =
    ResetStarted | ResetMappingSet | ResetUnlocking | ResetErasing | ResetVerifying
  | ResetDone | ResetFailed error

datatype backup_log =
    BackupStarted | BackupMappingSet | BackupFlashSize int | BackupSize int
  | BackupSegment int | BackupProgress int int int | BackupCancelled | BackupDone
  | BackupFailed error

datatype prod_log =
    ProdStarted | ProdFileSize int | ProdWriting | ProdGeometry int int
  | ProdErasing int | ProdEraseCancelled | ProdEraseSegment int int
  | ProdErased int int | ProdEraseDone | ProdProgramSegment int
  | ProdWritten int int int | ProdCancelled | ProdVerifying | ProdVerified int int
  | ProdDone | ProdFailed error

text \<open>
  The text of a log line is not modelled (it is Chinese prose); a log line is the tag of
  the statement that emits it, with the numbers the line interpolates.
\<close>

datatype logmsg = Qa qa_log | Reset reset_log | Backup backup_log | Prod prod_log

datatype signal = Log string logmsg | Progress string int | Finished string bool

record world =
  port_name :: string
  dev :: "nat \<Rightarrow> byte list"
  reads :: nat
  wire :: "action list"
  running :: "nat \<Rightarrow> bool"
  polls :: nat
  rng :: "nat \<Rightarrow> int"
  signals :: "signal list"
  sink :: "byte list"

text \<open>
  A computation takes the world and returns a value or the exception raised, together with
  the world it leaves behind; \<open>None\<close> is a computation that never returns.
\<close>

type_synonym 'a io = "world \<Rightarrow> ((error + 'a) \<times> world) option"

definition ret :: "'a \<Rightarrow> 'a io" where
  "ret x s = Some (Inr x, s)"

definition raise :: "error \<Rightarrow> 'a io" where
  "raise e s = Some (Inl e, s)"

definition bnd :: "'a io \<Rightarrow> ('a \<Rightarrow> 'b io) \<Rightarrow> 'b io" where
  "bnd m f s =
     (case m s of
        None \<Rightarrow> None
      | Some (Inl e, s') \<Rightarrow> Some (Inl e, s')
      | Some (Inr x, s') \<Rightarrow> f x s')"

definition thn :: "'a io \<Rightarrow> 'b io \<Rightarrow> 'b io" where
  "thn m k = bnd m (\<lambda>_. k)"

definition lift :: "error + 'a \<Rightarrow> 'a io" where
  "lift r = (case r of Inl e \<Rightarrow> raise e | Inr x \<Rightarrow> ret x)"

definition ebind :: "error + 'a \<Rightarrow> ('a \<Rightarrow> error + 'b) \<Rightarrow> error + 'b" where
  "ebind r f = (case r of Inl e \<Rightarrow> Inl e | Inr x \<Rightarrow> f x)"

definition ser_write :: "byte list \<Rightarrow> unit io" where
  "ser_write cmd s = Some (Inr (), s\<lparr>wire := wire s @ [Tx cmd]\<rparr>)"

definition ser_read :: "int \<Rightarrow> (byte list) io" where
  "ser_read n s =
     Some (Inr (take (nat n) (dev s (reads s))), s\<lparr>reads := Suc (reads s)\<rparr>)"

definition sleep_ms :: "nat \<Rightarrow> unit io" where
  "sleep_ms ms s = Some (Inr (), s\<lparr>wire := wire s @ [Sleep ms]\<rparr>)"

definition emit :: "(string \<Rightarrow> signal) \<Rightarrow> unit io" where
  "emit sg s = Some (Inr (), s\<lparr>signals := signals s @ [sg (port_name s)]\<rparr>)"

definition log_signal :: "logmsg \<Rightarrow> unit io" where
  "log_signal m = emit (\<lambda>p. Log p m)"

definition progress_signal :: "int \<Rightarrow> unit io" where
  "progress_signal n = emit (\<lambda>p. Progress p n)"

definition finished_signal :: "bool \<Rightarrow> unit io" where
  "finished_signal ok = emit (\<lambda>p. Finished p ok)"

definition self_running :: "bool io" where
  "self_running s = Some (Inr (running s (polls s)), s\<lparr>polls := Suc (polls s)\<rparr>)"

text \<open>
  \<open>while True: ... break\<close>: the body returns whether it left the loop. Nothing bounds
  the number of rounds, so the loop is a partial function.
\<close>

partial_function (option) while_True :: "bool io \<Rightarrow> world \<Rightarrow> ((error + unit) \<times> world) option"
  where
  "while_True body s =
     (case body s of
        None \<Rightarrow> None
      | Some (Inl e, s') \<Rightarrow> Some (Inl e, s')
      | Some (Inr left, s') \<Rightarrow> if left then Some (Inr (), s') else while_True body s')"

definition try_except :: "unit io \<Rightarrow> (error \<Rightarrow> unit io) \<Rightarrow> unit io" where
  "try_except body handler s =
     (case body s of
        None \<Rightarrow> None
      | Some (Inl e, s') \<Rightarrow> handler e s'
      | Some (Inr x, s') \<Rightarrow> Some (Inr x, s'))"

text \<open>A call whose result the source drops, and a block of such statements.\<close>

definition call :: "'a io \<Rightarrow> unit io" where
  "call m = bnd m (\<lambda>_. ret ())"

fun block :: "unit io list \<Rightarrow> unit io" where
  "block [] = ret ()"
| "block (m # ms) = thn m (block ms)"

section \<open>struct.pack and struct.unpack\<close>

definition pack_B :: "int \<Rightarrow> error + byte list" where
  "pack_B v = (if 0 \<le> v \<and> v < 256 then Inr [word_of_int (v mod 256)] else Inl StructError)"

definition pack_H :: "int \<Rightarrow> error + byte list" where
  "pack_H v =
     (if 0 \<le> v \<and> v < 65536
      then Inr [word_of_int (v mod 256), word_of_int (v div 256 mod 256)]
      else Inl StructError)"

definition pack_I :: "int \<Rightarrow> error + byte list" where
  "pack_I v =
     (if 0 \<le> v \<and> v < 4294967296
      then Inr [word_of_int (v mod 256), word_of_int (v div 256 mod 256),
                word_of_int (v div 65536 mod 256), word_of_int (v div 16777216 mod 256)]
      else Inl StructError)"

definition unpack_H :: "byte list \<Rightarrow> error + int" where
  "unpack_H d = (case d of [a, b] \<Rightarrow> Inr (uint a + 256 * uint b) | _ \<Rightarrow> Inl StructError)"

definition py_slice :: "nat \<Rightarrow> nat \<Rightarrow> 'a list \<Rightarrow> 'a list" where
  "py_slice i j xs = take (j - i) (drop i xs)"

section \<open>device\_adapter.py: the driver\<close>

datatype payload = PInt int | PBytes "byte list"

definition MAGIC_ADDRESS :: int where "MAGIC_ADDRESS = 0x01FFFFFE"
definition MAGIC_VALUE :: int where "MAGIC_VALUE = 0xA55A"
definition ROM_OFF_FLASHMETA :: int where "ROM_OFF_FLASHMETA = 0x00200000"
definition FLASH_METADATA_SIZE :: int where "FLASH_METADATA_SIZE = 0x00200000"

definition writeRom_cmd :: "int \<Rightarrow> payload \<Rightarrow> error + byte list" where
  "writeRom_cmd addr_word dat =
     ebind (case dat of PInt v \<Rightarrow> pack_H v | PBytes b \<Rightarrow> Inr b) (\<lambda>d.
     ebind (pack_H (2 + 1 + 4 + int (length d) + 2)) (\<lambda>sz.
     ebind (pack_I addr_word) (\<lambda>a.
     Inr (sz @ [0xf5] @ a @ d @ [0, 0]))))"

definition writeRom :: "int \<Rightarrow> payload \<Rightarrow> (byte list) io" where
  "writeRom addr_word dat =
     bnd (lift (writeRom_cmd addr_word dat)) (\<lambda>cmd.
     thn (ser_write cmd) (ser_read 1))"

definition readRom_cmd :: "int \<Rightarrow> int \<Rightarrow> error + byte list" where
  "readRom_cmd addr_word length_byte =
     ebind (pack_H (2 + 1 + 4 + 2 + 2)) (\<lambda>sz.
     ebind (pack_I (push_bit 1 addr_word)) (\<lambda>a.
     ebind (pack_H length_byte) (\<lambda>n.
     Inr (sz @ [0xf6] @ a @ n @ [0, 0]))))"

definition readRom :: "int \<Rightarrow> int \<Rightarrow> (byte list) io" where
  "readRom addr_word length_byte =
     bnd (lift (readRom_cmd addr_word length_byte)) (\<lambda>cmd.
     thn (ser_write cmd)
     (bnd (ser_read (length_byte + 2)) (\<lambda>respon. ret (drop 2 respon))))"

definition writeRam_cmd :: "int \<Rightarrow> payload \<Rightarrow> error + byte list" where
  "writeRam_cmd addr dat =
     ebind (case dat of PInt v \<Rightarrow> pack_B v | PBytes b \<Rightarrow> Inr b) (\<lambda>d.
     ebind (pack_H (2 + 1 + 4 + int (length d) + 2)) (\<lambda>sz.
     ebind (pack_I addr) (\<lambda>a.
     Inr (sz @ [0xf7] @ a @ d @ [0, 0]))))"

definition writeRam :: "int \<Rightarrow> payload \<Rightarrow> (byte list) io" where
  "writeRam addr dat =
     bnd (lift (writeRam_cmd addr dat)) (\<lambda>cmd.
     thn (ser_write cmd) (ser_read 1))"

definition readRam_cmd :: "int \<Rightarrow> int \<Rightarrow> error + byte list" where
  "readRam_cmd addr length_byte =
     ebind (pack_H (2 + 1 + 4 + 2 + 2)) (\<lambda>sz.
     ebind (pack_I addr) (\<lambda>a.
     ebind (pack_H length_byte) (\<lambda>n.
     Inr (sz @ [0xf8] @ a @ n @ [0, 0]))))"

definition readRam :: "int \<Rightarrow> int \<Rightarrow> (byte list) io" where
  "readRam addr length_byte =
     bnd (lift (readRam_cmd addr length_byte)) (\<lambda>cmd.
     thn (ser_write cmd)
     (bnd (ser_read (length_byte + 2)) (\<lambda>respon. ret (drop 2 respon))))"

definition sc_config :: "int \<Rightarrow> int \<Rightarrow> int \<Rightarrow> int \<Rightarrow> int \<Rightarrow> int" where
  "sc_config sdram sd_enable write_enable sram_bank ctrl =
     push_bit 4 ctrl OR
     (sdram OR push_bit 1 sd_enable OR push_bit 2 write_enable OR push_bit 3 sram_bank)"

definition set_sc_mode :: "int \<Rightarrow> int \<Rightarrow> int \<Rightarrow> int \<Rightarrow> int \<Rightarrow> bool io" where
  "set_sc_mode sdram sd_enable write_enable sram_bank ctrl =
     (let magic_addr_word = drop_bit 1 MAGIC_ADDRESS;
          config1 = sc_config sdram sd_enable write_enable sram_bank ctrl
      in thn (writeRom magic_addr_word (PInt MAGIC_VALUE))
        (thn (writeRom magic_addr_word (PInt MAGIC_VALUE))
        (thn (writeRom magic_addr_word (PInt config1))
        (thn (writeRom magic_addr_word (PInt config1))
        (ret True)))))"

definition sram_bank_select :: "int \<Rightarrow> bool io" where
  "sram_bank_select bank =
     thn (writeRom 0x800000 (PInt bank))
         (set_sc_mode 0 0 0 bank (0xF XOR push_bit 3 1))"

fun set_flashmapping_loop :: "int \<Rightarrow> int list \<Rightarrow> unit io" where
  "set_flashmapping_loop magic_addr_word [] = ret ()"
| "set_flashmapping_loop magic_addr_word (m # ms) =
     thn (writeRom magic_addr_word (PInt 0xA558))
    (thn (writeRom magic_addr_word (PInt 0xA558))
    (thn (writeRom magic_addr_word (PInt m))
    (thn (writeRom magic_addr_word (PInt m))
    (set_flashmapping_loop magic_addr_word ms))))"

definition set_flashmapping :: "int list \<Rightarrow> bool io" where
  "set_flashmapping mapping =
     (if length mapping \<noteq> 8 then raise ValueError
      else thn (set_flashmapping_loop (drop_bit 1 MAGIC_ADDRESS) mapping) (ret True))"

record cfi_info =
  cfi_device_size :: int
  cfi_sector_count :: int
  cfi_sector_size :: int
  cfi_buffer_write_bytes :: int

definition parse_cfi :: "byte list \<Rightarrow> error + cfi_info" where
  "parse_cfi cfi =
     ebind (unpack_H (py_slice 0 2 cfi)) (\<lambda>t0.
     ebind (unpack_H (py_slice 6 8 cfi)) (\<lambda>t3.
     ebind (unpack_H (py_slice 12 14 cfi)) (\<lambda>t6.
     ebind (unpack_H (py_slice 14 16 cfi)) (\<lambda>t7.
     ebind (unpack_H (py_slice 16 18 cfi)) (\<lambda>t8.
     ebind (unpack_H (py_slice 18 20 cfi)) (\<lambda>t9.
     Inr \<lparr>cfi_device_size = 2 ^ nat t0,
          cfi_sector_count = (push_bit 8 (t7 AND 0xff) OR (t6 AND 0xff)) + 1,
          cfi_sector_size = (push_bit 8 (t9 AND 0xff) OR (t8 AND 0xff)) * 256,
          cfi_buffer_write_bytes = (if t3 \<noteq> 0 then 2 ^ nat t3 else 0)\<rparr>))))))"

definition getRomCFI :: "cfi_info io" where
  "getRomCFI =
     thn (writeRom 0x55 (PInt 0x98))
    (bnd (readRom 0x27 20) (\<lambda>cfi.
     thn (writeRom 0x00 (PInt 0xf0))
         (lift (parse_cfi cfi))))"

definition eraseChip_poll :: "bool io" where
  "eraseChip_poll =
     bnd (readRom 0x000000 2) (\<lambda>data.
     bnd (lift (unpack_H data)) (\<lambda>v.
     if v = 0xffff then ret True else thn (sleep_ms 500) (ret False)))"

definition eraseChip :: "bool io" where
  "eraseChip =
     thn (writeRom 0x000555 (PInt 0xaa))
    (thn (writeRom 0x0002aa (PInt 0x55))
    (thn (writeRom 0x000555 (PInt 0x80))
    (thn (writeRom 0x000555 (PInt 0xaa))
    (thn (writeRom 0x0002aa (PInt 0x55))
    (thn (writeRom 0x000555 (PInt 0x10))
    (thn (sleep_ms 100)
    (thn (while_True eraseChip_poll)
         (ret True))))))))"

definition eraseSector_poll :: "int \<Rightarrow> bool io" where
  "eraseSector_poll addr_word =
     bnd (readRom addr_word 2) (\<lambda>data.
     bnd (lift (unpack_H data)) (\<lambda>v.
     if v = 0xffff then ret True else thn (sleep_ms 100) (ret False)))"

definition eraseSector :: "int \<Rightarrow> int \<Rightarrow> bool io" where
  "eraseSector addr_word sector_size_words =
     thn (writeRom 0x000555 (PInt 0xaa))
    (thn (writeRom 0x0002aa (PInt 0x55))
    (thn (writeRom 0x000555 (PInt 0x80))
    (thn (writeRom 0x000555 (PInt 0xaa))
    (thn (writeRom 0x0002aa (PInt 0x55))
    (thn (writeRom addr_word (PInt 0x30))
    (thn (sleep_ms 10)
    (thn (while_True (eraseSector_poll addr_word))
         (ret True))))))))"

definition programRom_cmd :: "int \<Rightarrow> payload \<Rightarrow> int \<Rightarrow> error + byte list" where
  "programRom_cmd addr_byte dat bwb =
     ebind (case dat of PInt v \<Rightarrow> pack_H v | PBytes b \<Rightarrow> Inr b) (\<lambda>d.
     ebind (pack_H (2 + 1 + 4 + 2 + int (length d) + 2)) (\<lambda>sz.
     ebind (pack_I addr_byte) (\<lambda>a.
     ebind (pack_H bwb) (\<lambda>b.
     Inr (sz @ [0xf4] @ a @ b @ d @ [0, 0])))))"

definition programRom :: "int \<Rightarrow> payload \<Rightarrow> int option \<Rightarrow> bool io" where
  "programRom addr_byte dat buffer_write_bytes_opt =
     bnd (lift (case dat of PInt v \<Rightarrow> pack_H v | PBytes b \<Rightarrow> Inr b)) (\<lambda>d.
     bnd (case buffer_write_bytes_opt of
            None \<Rightarrow> bnd getRomCFI (\<lambda>cfi. ret (cfi_buffer_write_bytes cfi))
          | Some b \<Rightarrow> ret b) (\<lambda>bwb.
     bnd (lift (programRom_cmd addr_byte (PBytes d) bwb)) (\<lambda>cmd.
     thn (ser_write cmd)
    (bnd (ser_read 1) (\<lambda>ack. ret (ack = [0xaa]))))))"

definition unlockPPB_poll :: "bool io" where
  "unlockPPB_poll =
     thn (writeRom 0x000555 (PInt 0x70))
    (bnd (readRom 0 2) (\<lambda>status.
     bnd (lift (unpack_H status)) (\<lambda>v.
     if v AND 0x80 \<noteq> 0 then ret True else thn (sleep_ms 100) (ret False))))"

definition unlockPPB :: "bool io" where
  "unlockPPB =
     thn (set_flashmapping [0, 1, 2, 3, 4, 5, 6, 7])
    (thn (writeRom 0x000555 (PInt 0xaa))
    (thn (writeRom 0x0002aa (PInt 0x55))
    (thn (writeRom 0x000555 (PInt 0xc0))
    (thn (writeRom 0 (PInt 0x80))
    (thn (writeRom 0 (PInt 0x30))
    (thn (sleep_ms 100)
    (thn (while_True unlockPPB_poll)
    (thn (writeRom 0 (PInt 0x90))
    (thn (writeRom 0 (PInt 0x00))
    (thn (writeRom 0x000000 (PInt 0xf0))
         (ret True)))))))))))"

definition py_range :: "int \<Rightarrow> int list" where
  "py_range n = map int [0..<nat n]"

definition py_range3 :: "int \<Rightarrow> int \<Rightarrow> int \<Rightarrow> int list" where
  "py_range3 start stop step =
     map (\<lambda>k. start + int k * step) [0..<nat ((stop - start + step - 1) div step)]"

definition py_floordiv :: "int \<Rightarrow> int \<Rightarrow> error + int" where
  "py_floordiv a b = (if b = 0 then Inl ZeroDivisionError else Inr (a div b))"

fun eraseFlashMetadata_loop :: "int \<Rightarrow> int \<Rightarrow> int list \<Rightarrow> unit io" where
  "eraseFlashMetadata_loop meta_start sector_size [] = ret ()"
| "eraseFlashMetadata_loop meta_start sector_size (i # is) =
     (let addr_byte = meta_start + i * sector_size;
          addr_word = drop_bit 1 addr_byte
      in thn (eraseSector addr_word (drop_bit 1 sector_size))
             (eraseFlashMetadata_loop meta_start sector_size is))"

definition eraseFlashMetadata :: "bool io" where
  "eraseFlashMetadata =
     thn (set_flashmapping [0, 1, 2, 3, 4, 5, 6, 7])
    (bnd getRomCFI (\<lambda>cfi_info.
     bnd (lift (py_floordiv FLASH_METADATA_SIZE (cfi_sector_size cfi_info))) (\<lambda>sector_count.
     thn (eraseFlashMetadata_loop ROM_OFF_FLASHMETA (cfi_sector_size cfi_info)
            (py_range sector_count))
         (ret True))))"

section \<open>chismaker.py: the quality check worker\<close>

record QualityCheckConfig =
  enable_sram_test :: bool
  enable_flash_erase :: bool
  enable_ppb_unlock :: bool
  enable_fast_flash :: bool
  enable_full_sram :: bool
  enable_ram_flash :: bool

definition test_count_of :: "QualityCheckConfig \<Rightarrow> int" where
  "test_count_of config =
     sum_list (map of_bool
       [enable_sram_test config,
        enable_flash_erase config \<or> enable_fast_flash config,
        enable_ppb_unlock config,
        enable_full_sram config,
        enable_ram_flash config])"

text \<open>
  The quality check computes \<open>int((current_test - 0.5) * progress_per_test)\<close> and
  \<open>int(current_test * progress_per_test)\<close> with \<open>progress_per_test = 100 / test_count\<close> in
  binary64 floating point. There are at most five tests; at each of the pairs
  \<open>1 \<le> current_test \<le> test_count \<le> 5\<close> the value is the floor of the exact quotient
  (lemma \<open>qa_progress_binary64\<close> below), which is what the two definitions compute.
\<close>

definition progress_entering :: "int \<Rightarrow> int \<Rightarrow> int" where
  "progress_entering current_test test_count = ((2 * current_test - 1) * 100) div (2 * test_count)"

definition progress_completed :: "int \<Rightarrow> int \<Rightarrow> int" where
  "progress_completed current_test test_count = (current_test * 100) div test_count"

text \<open>
  The other workers compute \<open>int(a / b * c)\<close> on integers: \<open>a / b\<close> is the quotient of the
  two integers rounded once to the nearest binary64 value (ties to even), the product with
  \<open>c\<close> is rounded again, and \<open>int\<close> truncates towards zero. A binary64 value
  \<open>m * 2 ^ e\<close> is the pair \<open>(m, e)\<close> of a mantissa of at most 53 bits (\<open>2 ^ 53\<close> itself
  when rounding carries) and the exponent of its last bit, which is at least \<open>-1074\<close>.
  Overflow is left out: every call has \<open>0 \<le> a \<le> b + 2048\<close>, \<open>1 \<le> b\<close> and \<open>c\<close> one of 50
  and 100, so that both the quotient and the product are far below \<open>2 ^ 1024\<close>.
\<close>

function bit_length :: "int \<Rightarrow> nat" where
  "bit_length n = (if n \<le> 0 then 0 else Suc (bit_length (n div 2)))"
  by pat_completeness auto
termination
  by (relation "measure nat") auto

text \<open>The integer nearest to \<open>p / q\<close>, the even one of two that are equally near.\<close>

definition round_half_even :: "int \<Rightarrow> int \<Rightarrow> int" where
  "round_half_even p q =
     (let d = p div q; r = p mod q
      in if 2 * r < q then d else if q < 2 * r then d + 1 else if even d then d else d + 1)"

text \<open>
  \<open>p / q\<close> for \<open>0 \<le> p\<close> and \<open>0 < q\<close>: with \<open>2 ^ e \<le> p / q < 2 ^ (e + 1)\<close> the last bit
  of the result has the exponent \<open>e - 52\<close>, or \<open>-1074\<close> for a subnormal result.
\<close>

definition true_div :: "int \<Rightarrow> int \<Rightarrow> int \<times> int" where
  "true_div p q =
     (if p = 0 then (0, 0)
      else
        let d = int (bit_length p) - int (bit_length q);
            e = (if (if 0 \<le> d then q * 2 ^ nat d \<le> p else q \<le> p * 2 ^ nat (- d))
                 then d else d - 1);
            l = max (e - 52) (- 1074)
        in (if l \<le> 0 then round_half_even (p * 2 ^ nat (- l)) q
            else round_half_even p (q * 2 ^ nat l), l))"

definition float_times :: "int \<times> int \<Rightarrow> int \<Rightarrow> int \<times> int" where
  "float_times x c =
     (case x of (m, e) \<Rightarrow>
        let p = m * c; k = max (int (bit_length p) - 53) (- 1074 - e)
        in if k \<le> 0 then (p, e) else (round_half_even p (2 ^ nat k), e + k))"

definition int_of_float :: "int \<times> int \<Rightarrow> int" where
  "int_of_float x =
     (case x of (m, e) \<Rightarrow> if 0 \<le> e then m * 2 ^ nat e else m div 2 ^ nat (- e))"

definition int_scaled :: "int \<Rightarrow> int \<Rightarrow> int \<Rightarrow> int" where
  "int_scaled a b c =
     sgn a * sgn b * sgn c * int_of_float (float_times (true_div \<bar>a\<bar> \<bar>b\<bar>) \<bar>c\<bar>)"

text \<open>\<open>if flag and self.running:\<close> reads the running flag only when the flag of the step is set.\<close>

definition qa_step :: "bool \<Rightarrow> (int \<Rightarrow> int io) \<Rightarrow> int \<Rightarrow> int io" where
  "qa_step enabled step current_test =
     (if enabled
      then bnd self_running (\<lambda>r. if r then step current_test else ret current_test)
      else ret current_test)"

definition qa_sram_test :: "int \<Rightarrow> int \<Rightarrow> int io" where
  "qa_sram_test test_count current_test0 =
     (let current_test = current_test0 + 1;
          test_data = [0xAA, 0x55, 0x12, 0x34]
      in thn (block
           [log_signal (Qa (QaStepSramBasic current_test test_count)),
            progress_signal (progress_entering current_test test_count),
            call (sram_bank_select 0),
            sleep_ms 10,
            call (writeRam 0x0000 (PBytes test_data)),
            sleep_ms 10])
        (bnd (readRam 0x0000 (int (length test_data))) (\<lambda>read_data.
         if read_data \<noteq> test_data then raise (Failure SramBasicFailed)
         else thn (block
                [log_signal (Qa QaSramBasicPassed),
                 progress_signal (progress_completed current_test test_count)])
              (ret current_test))))"

fun qa_full_sram_loop :: "int list \<Rightarrow> unit io" where
  "qa_full_sram_loop [] = ret ()"
| "qa_full_sram_loop (addr # rest) =
     (let chunk_size = 1024;
          test_data = map (\<lambda>i. word_of_int ((addr + i) AND 0xFF)) (py_range chunk_size)
      in thn (if addr mod 65536 = 0
              then block [call (sram_bank_select (addr div 65536)),
                          log_signal (Qa (QaSramBank (addr div 65536)))]
              else ret ())
        (thn (writeRam addr (PBytes test_data))
        (bnd (readRam addr chunk_size) (\<lambda>read_data.
         if read_data \<noteq> test_data then raise (Failure (SramFullFailed addr))
         else qa_full_sram_loop rest))))"

definition qa_full_sram :: "int \<Rightarrow> int \<Rightarrow> int io" where
  "qa_full_sram test_count current_test0 =
     (let current_test = current_test0 + 1
      in thn (block
           [log_signal (Qa (QaStepSramFull current_test test_count)),
            progress_signal (progress_entering current_test test_count),
            call (sram_bank_select 0),
            sleep_ms 10,
            qa_full_sram_loop (py_range3 0 (65536 * 2) 1024),
            log_signal (Qa QaSramFullPassed),
            progress_signal (progress_completed current_test test_count)])
          (ret current_test))"

definition qa_ppb_unlock :: "int \<Rightarrow> int \<Rightarrow> int io" where
  "qa_ppb_unlock test_count current_test0 =
     (let current_test = current_test0 + 1
      in thn (block
           [log_signal (Qa (QaStepPpbUnlock current_test test_count)),
            progress_signal (progress_entering current_test test_count),
            call (set_sc_mode 0 0 1 0 0x8),
            call (set_flashmapping [0, 1, 2, 3, 4, 5, 6, 7]),
            call unlockPPB,
            log_signal (Qa QaPpbUnlocked),
            progress_signal (progress_completed current_test test_count)])
          (ret current_test))"

definition randint :: "int \<Rightarrow> int \<Rightarrow> nat \<Rightarrow> int io" where
  "randint a b k s =
     (if b < a then Some (Inl ValueError, s)
      else Some (Inr (a + rng s k mod (b - a + 1)), s))"

fun qa_random_regions :: "int \<Rightarrow> int \<Rightarrow> nat list \<Rightarrow> ((int \<times> int) list) io" where
  "qa_random_regions device_size sector_size [] = ret []"
| "qa_random_regions device_size sector_size (k # ks) =
     bnd (randint (4 * 1024 * 1024) (device_size - 6 * 1024 * 1024) k) (\<lambda>drawn.
     bnd (lift (py_floordiv drawn sector_size)) (\<lambda>q.
     let random_start = q * sector_size
     in bnd (qa_random_regions device_size sector_size ks) (\<lambda>rest.
        ret ((random_start, random_start + 2 * 1024 * 1024) # rest))))"

fun qa_total_sectors :: "int \<Rightarrow> int \<Rightarrow> (int \<times> int) list \<Rightarrow> error + int" where
  "qa_total_sectors sector_size total_sectors [] = Inr total_sectors"
| "qa_total_sectors sector_size total_sectors ((start, end') # rest) =
     ebind (py_floordiv (end' - start) sector_size) (\<lambda>sector_count.
     qa_total_sectors sector_size (total_sectors + sector_count) rest)"

fun qa_erase_sectors :: "int \<Rightarrow> int \<Rightarrow> int \<Rightarrow> int \<Rightarrow> int list \<Rightarrow> int io" where
  "qa_erase_sectors start sector_size total_sectors erased_sectors [] = ret erased_sectors"
| "qa_erase_sectors start sector_size total_sectors erased_sectors (i # is) =
     (let addr = start + i * sector_size
      in thn (eraseSector (drop_bit 1 addr) (drop_bit 1 sector_size))
        (thn (if (erased_sectors + 1) mod 10 = 0
              then log_signal (Qa (QaErasedSectors (erased_sectors + 1) total_sectors))
              else ret ())
             (qa_erase_sectors start sector_size total_sectors (erased_sectors + 1) is)))"

fun qa_erase_regions :: "int \<Rightarrow> int \<Rightarrow> int \<Rightarrow> (int \<times> int) list \<Rightarrow> int io" where
  "qa_erase_regions sector_size total_sectors erased_sectors [] = ret erased_sectors"
| "qa_erase_regions sector_size total_sectors erased_sectors ((start, end') # rest) =
     bnd (lift (py_floordiv (end' - start) sector_size)) (\<lambda>sector_count.
     bnd (qa_erase_sectors start sector_size total_sectors erased_sectors
            (py_range sector_count)) (\<lambda>erased_sectors'.
     qa_erase_regions sector_size total_sectors erased_sectors' rest))"

fun qa_verify_region :: "int \<Rightarrow> int list \<Rightarrow> unit io" where
  "qa_verify_region end' [] = ret ()"
| "qa_verify_region end' (addr # rest) =
     bnd (readRom (drop_bit 1 addr) (min 4096 (end' - addr))) (\<lambda>data.
     if \<not> list_all (\<lambda>b. b = 0xff) data then raise (Failure (FlashEraseVerifyFailed addr))
     else qa_verify_region end' rest)"

fun qa_verify_regions :: "(int \<times> int) list \<Rightarrow> unit io" where
  "qa_verify_regions [] = ret ()"
| "qa_verify_regions ((start, end') # rest) =
     thn (qa_verify_region end' (py_range3 start end' 4096)) (qa_verify_regions rest)"

definition qa_fast_flash :: "int \<Rightarrow> int \<Rightarrow> unit io" where
  "qa_fast_flash test_count current_test =
     thn (block
       [log_signal (Qa (QaStepFastFlash current_test test_count)),
        progress_signal (progress_entering current_test test_count)])
    (bnd getRomCFI (\<lambda>cfi_info.
     let sector_size = cfi_sector_size cfi_info;
         device_size = cfi_device_size cfi_info;
         end_start = device_size - 4 * 1024 * 1024
     in bnd (qa_random_regions device_size sector_size [0, 1, 2, 3]) (\<lambda>random_regions.
        let test_regions = [(0, 4 * 1024 * 1024), (end_start, device_size)] @ random_regions
        in bnd (lift (qa_total_sectors sector_size 0 test_regions)) (\<lambda>total_sectors.
           block
             [call (qa_erase_regions sector_size total_sectors 0 test_regions),
              qa_verify_regions test_regions,
              log_signal (Qa QaFastFlashPassed)]))))"

definition qa_flash_erase :: "int \<Rightarrow> int \<Rightarrow> unit io" where
  "qa_flash_erase test_count current_test =
     thn (block
       [log_signal (Qa (QaStepFlashErase current_test test_count)),
        progress_signal (progress_entering current_test test_count)])
    (bnd (readRom 0x000000 512) (\<lambda>first_sector.
     let is_empty = list_all (\<lambda>b. b = 0xff) first_sector
     in if \<not> is_empty
        then block [log_signal (Qa QaFlashNotEmpty), call eraseChip,
                    log_signal (Qa QaFlashErased)]
        else log_signal (Qa QaFlashAlreadyEmpty)))"

definition qa_flash :: "QualityCheckConfig \<Rightarrow> int \<Rightarrow> int \<Rightarrow> int io" where
  "qa_flash config test_count current_test0 =
     (let current_test = current_test0 + 1
      in thn (block
           [call (set_sc_mode 0 0 1 0 0x8),
            call (set_flashmapping [0, 1, 2, 3, 4, 5, 6, 7]),
            (if enable_fast_flash config then qa_fast_flash test_count current_test
             else qa_flash_erase test_count current_test),
            progress_signal (progress_completed current_test test_count)])
          (ret current_test))"

definition qa_ram_flash :: "int \<Rightarrow> int \<Rightarrow> int io" where
  "qa_ram_flash test_count current_test0 =
     (let current_test = current_test0 + 1
      in thn (block
           [log_signal (Qa (QaStepBackupFlash current_test test_count)),
            progress_signal (progress_entering current_test test_count),
            call (writeRam 0x5555 (PInt 0xAA)), sleep_ms 1,
            call (writeRam 0x2AAA (PInt 0x55)), sleep_ms 1,
            call (writeRam 0x0000 (PInt 0x90)), sleep_ms 1])
        (bnd (readRam 0x0000 2) (\<lambda>manufacturer.
         bnd (readRam 0x0002 2) (\<lambda>device_id.
         thn (writeRam 0x0000 (PInt 0xF0))
             (if manufacturer \<noteq> [0xff, 0xff] \<and> device_id \<noteq> [0xff, 0xff]
              then thn (block
                     [log_signal (Qa (QaBackupFlashPassed manufacturer device_id)),
                      progress_signal (progress_completed current_test test_count)])
                   (ret current_test)
              else raise (Failure BackupFlashFailed))))))"

definition QualityCheckWorker_run :: "QualityCheckConfig \<Rightarrow> unit io" where
  "QualityCheckWorker_run config =
     try_except
       (thn (log_signal (Qa QaStarted))
       (let test_count = test_count_of config
        in if test_count = 0
           then block [log_signal (Qa QaNoTestEnabled), finished_signal False]
           else
             bnd (qa_step (enable_sram_test config) (qa_sram_test test_count) 0) (\<lambda>ct1.
             bnd (qa_step (enable_full_sram config) (qa_full_sram test_count) ct1) (\<lambda>ct2.
             bnd (qa_step (enable_ppb_unlock config) (qa_ppb_unlock test_count) ct2) (\<lambda>ct3.
             bnd (qa_step (enable_flash_erase config \<or> enable_fast_flash config)
                    (qa_flash config test_count) ct3) (\<lambda>ct4.
             bnd (qa_step (enable_ram_flash config) (qa_ram_flash test_count) ct4) (\<lambda>ct5.
             block
               [progress_signal 100,
                log_signal (Qa QaDone),
                finished_signal True])))))))
       (\<lambda>e. block [log_signal (Qa (QaFailed e)), finished_signal False])"

section \<open>chismaker.py: the reset worker\<close>

definition ResetNorWorker_run :: "unit io" where
  "ResetNorWorker_run =
     try_except
       (thn (block
          [log_signal (Reset ResetStarted),
           progress_signal 10,
           call (set_sc_mode 0 0 1 0 0x8),
           call (set_flashmapping [0, 1, 2, 3, 4, 5, 6, 7]),
           log_signal (Reset ResetMappingSet),
           progress_signal 20,
           log_signal (Reset ResetUnlocking),
           call unlockPPB,
           progress_signal 30,
           log_signal (Reset ResetErasing),
           call eraseFlashMetadata,
           progress_signal 80,
           log_signal (Reset ResetVerifying)])
       (let meta_start_word = drop_bit 1 0x00200000
        in bnd (readRom meta_start_word 512) (\<lambda>verify_data.
           if \<not> list_all (\<lambda>b. b = 0xff) verify_data
           then raise (Failure MetadataVerifyFailed)
           else block
             [log_signal (Reset ResetDone),
              progress_signal 100,
              finished_signal True])))
       (\<lambda>e. block [log_signal (Reset (ResetFailed e)), finished_signal False])"

section \<open>chismaker.py: segments of 32 MiB\<close>

definition segment_mapping :: "int \<Rightarrow> int list" where
  "segment_mapping mapping_offset =
     [0 + mapping_offset, 1 + mapping_offset, 2 + mapping_offset, 3 + mapping_offset,
      4 + mapping_offset, 5 + mapping_offset, 6 + mapping_offset, 7 + mapping_offset]"

text \<open>
  The four loops that walk over the Flash carry \<open>current_segment\<close> and begin each round
  with the same statement: compare the segment of the offset with it and, when they
  differ, set the mapping of the new segment (and log a line, which differs per loop).
\<close>

definition switch_segment :: "int \<Rightarrow> int \<Rightarrow> unit io \<Rightarrow> int io" where
  "switch_segment new_segment current_segment logline =
     (if new_segment \<noteq> current_segment
      then (let mapping_offset = new_segment * 8
            in thn (block [call (set_flashmapping (segment_mapping mapping_offset)), logline])
                   (ret new_segment))
      else ret current_segment)"

definition file_write :: "byte list \<Rightarrow> unit io" where
  "file_write data s = Some (Inr (), s\<lparr>sink := sink s @ data\<rparr>)"

section \<open>chismaker.py: the backup worker\<close>

function backup_loop :: "int \<Rightarrow> int \<Rightarrow> int \<Rightarrow> unit io" where
  "backup_loop total_size read_bytes current_segment =
     (if read_bytes < total_size
      then bnd self_running (\<lambda>r.
        if r
        then bnd (switch_segment (read_bytes div (32 * 1024 * 1024)) current_segment
                    (log_signal (Backup (BackupSegment (read_bytes div (32 * 1024 * 1024))))))
             (\<lambda>current_segment'.
             bnd (readRom (drop_bit 1 (read_bytes mod (32 * 1024 * 1024)))
                    (min 4096 (total_size - read_bytes))) (\<lambda>data.
             thn (file_write data)
            (thn (if (read_bytes + min 4096 (total_size - read_bytes)) mod (1024 * 1024) = 0
                     \<or> read_bytes + min 4096 (total_size - read_bytes) \<ge> total_size
                  then block
                    [progress_signal
                       (int_scaled (read_bytes + min 4096 (total_size - read_bytes)) total_size 100),
                     log_signal (Backup (BackupProgress
                       ((read_bytes + min 4096 (total_size - read_bytes)) div (1024 * 1024))
                       (total_size div (1024 * 1024))
                       (int_scaled (read_bytes + min 4096 (total_size - read_bytes)) total_size 100)))]
                  else ret ())
                 (backup_loop total_size (read_bytes + min 4096 (total_size - read_bytes))
                    current_segment'))))
        else ret ())
      else ret ())"
  by pat_completeness auto
termination
  by (relation "measure (\<lambda>(total_size, read_bytes, current_segment). nat (total_size - read_bytes))")
     auto

definition BackupFlashWorker_run :: "int \<Rightarrow> unit io" where
  "BackupFlashWorker_run backup_size =
     try_except
       (thn (block
          [log_signal (Backup BackupStarted),
           progress_signal 0,
           call (set_sc_mode 0 0 0 0 0x8),
           call (set_flashmapping [0, 1, 2, 3, 4, 5, 6, 7]),
           sleep_ms 10,
           log_signal (Backup BackupMappingSet)])
       (bnd getRomCFI (\<lambda>cfi_info.
        let device_size = cfi_device_size cfi_info;
            total_size = min backup_size device_size
        in thn (block
             [log_signal (Backup (BackupFlashSize (device_size div (1024 * 1024)))),
              log_signal (Backup (BackupSize (total_size div (1024 * 1024)))),
              backup_loop total_size 0 0])
           (bnd self_running (\<lambda>r.
            if \<not> r
            then block [log_signal (Backup BackupCancelled), finished_signal False]
            else block
              [log_signal (Backup BackupDone),
               progress_signal 100,
               finished_signal True])))))
       (\<lambda>e. block [log_signal (Backup (BackupFailed e)), finished_signal False])"

section \<open>chismaker.py: the production worker\<close>

text \<open>
  The erase loop can leave \<open>run\<close> by \<open>return\<close>: it yields whether the loop ran to its end.
\<close>

fun prod_erase_loop :: "int \<Rightarrow> int \<Rightarrow> int \<Rightarrow> int list \<Rightarrow> bool io" where
  "prod_erase_loop sector_size sector_count current_segment [] = ret True"
| "prod_erase_loop sector_size sector_count current_segment (i # is) =
     bnd self_running (\<lambda>r.
     if \<not> r
     then thn (block [log_signal (Prod ProdEraseCancelled), finished_signal False]) (ret False)
     else
       (let addr = i * sector_size;
            segment_size = 32 * 1024 * 1024;
            new_segment = addr div segment_size
        in bnd (switch_segment new_segment current_segment
                  (log_signal (Prod (ProdEraseSegment new_segment (new_segment * 8)))))
           (\<lambda>current_segment'.
           let offset_in_segment = addr mod segment_size
           in thn (block
                [call (eraseSector (drop_bit 1 offset_in_segment) (drop_bit 1 sector_size)),
                 progress_signal (int_scaled (i + 1) sector_count 50),
                 (if (i + 1) mod 10 = 0 \<or> i + 1 = sector_count
                  then log_signal (Prod (ProdErased (i + 1) sector_count))
                  else ret ())])
              (prod_erase_loop sector_size sector_count current_segment' is))))"

function prod_program_loop :: "byte list \<Rightarrow> int \<Rightarrow> int \<Rightarrow> int \<Rightarrow> int \<Rightarrow> unit io" where
  "prod_program_loop rom_data file_size buffer_size written current_segment =
     (if written < file_size
      then bnd self_running (\<lambda>r.
        if r
        then bnd (switch_segment (written div (32 * 1024 * 1024)) current_segment
                    (log_signal (Prod (ProdProgramSegment (written div (32 * 1024 * 1024))))))
             (\<lambda>current_segment'.
             let write_chunk_size = 2048;
                 offset_in_segment = written mod (32 * 1024 * 1024);
                 chunk0 = py_slice (nat written) (nat (written + write_chunk_size)) rom_data;
                 chunk = (if int (length chunk0) < write_chunk_size
                          then chunk0 @ replicate (nat (write_chunk_size - int (length chunk0))) 0xff
                          else chunk0)
             in bnd (programRom offset_in_segment (PBytes chunk) (Some buffer_size)) (\<lambda>result.
                if \<not> result
                then raise (Failure (ProgramFailed written current_segment' offset_in_segment))
                else
                  thn (block
                    [(if (written + 2048) mod (64 * 1024) = 0 \<or> written + 2048 \<ge> file_size
                      then log_signal (Prod (ProdWritten (written + 2048) file_size
                             ((written + 2048) * 100 div file_size)))
                      else ret ()),
                     progress_signal (50 + int_scaled (written + 2048) file_size 50)])
                  (prod_program_loop rom_data file_size buffer_size (written + 2048)
                     current_segment')))
        else ret ())
      else ret ())"
  by pat_completeness auto
termination
  by (relation "measure (\<lambda>(rom_data, file_size, buffer_size, written, current_segment).
        nat (file_size - written))") auto

function prod_verify_loop :: "byte list \<Rightarrow> int \<Rightarrow> int \<Rightarrow> int \<Rightarrow> unit io" where
  "prod_verify_loop rom_data file_size verified current_segment =
     (if verified < file_size
      then bnd self_running (\<lambda>r.
        if r
        then bnd (switch_segment (verified div (32 * 1024 * 1024)) current_segment (ret ()))
             (\<lambda>current_segment'.
             let offset_in_segment = verified mod (32 * 1024 * 1024);
                 addr_word = drop_bit 1 offset_in_segment;
                 length' = min 4096 (file_size - verified);
                 expected = py_slice (nat verified) (nat (verified + length')) rom_data
             in bnd (readRom addr_word length') (\<lambda>actual.
                if actual \<noteq> expected then raise (Failure (VerifyFailed verified))
                else
                  thn (if (verified + min 4096 (file_size - verified)) mod (1024 * 1024) = 0
                          \<or> verified + min 4096 (file_size - verified) \<ge> file_size
                       then log_signal (Prod (ProdVerified
                              ((verified + min 4096 (file_size - verified)) div (1024 * 1024))
                              (file_size div (1024 * 1024))))
                       else ret ())
                  (prod_verify_loop rom_data file_size
                     (verified + min 4096 (file_size - verified)) current_segment')))
        else ret ())
      else ret ())"
  by pat_completeness auto
termination
  by (relation "measure (\<lambda>(rom_data, file_size, verified, current_segment).
        nat (file_size - verified))") auto

definition ProductionWorker_run :: "byte list \<Rightarrow> unit io" where
  "ProductionWorker_run file_contents =
     try_except
       (thn (block
          [log_signal (Prod ProdStarted),
           log_signal (Prod (ProdFileSize (int (length file_contents))))])
       (let rom_data = (if int (length file_contents) mod 2 \<noteq> 0
                        then file_contents @ [0x00] else file_contents);
            file_size = int (length rom_data)
        in thn (block
             [call (set_sc_mode 0 0 1 0 0x8),
              call (set_flashmapping [0, 1, 2, 3, 4, 5, 6, 7]),
              sleep_ms 10,
              log_signal (Prod ProdWriting)])
          (bnd getRomCFI (\<lambda>cfi_info.
           let sector_size = cfi_sector_size cfi_info;
               buffer_size = cfi_buffer_write_bytes cfi_info
           in thn (log_signal (Prod (ProdGeometry sector_size buffer_size)))
             (let addr_end = file_size - 1
              in bnd (lift (py_floordiv addr_end sector_size)) (\<lambda>q.
                 let sector_count = q + 1
                 in thn (log_signal (Prod (ProdErasing sector_count)))
                   (bnd (prod_erase_loop sector_size sector_count 0 (py_range sector_count))
                    (\<lambda>completed.
                    if \<not> completed then ret ()
                    else
                      thn (block
                        [log_signal (Prod ProdEraseDone),
                         call (set_sc_mode 0 0 1 0 0x8),
                         call (set_flashmapping [0, 1, 2, 3, 4, 5, 6, 7]),
                         sleep_ms 10,
                         prod_program_loop rom_data file_size buffer_size 0 0])
                      (bnd self_running (\<lambda>r.
                       if \<not> r
                       then block [log_signal (Prod ProdCancelled), finished_signal False]
                       else block
                         [log_signal (Prod ProdVerifying),
                          call (set_flashmapping [0, 1, 2, 3, 4, 5, 6, 7]),
                          prod_verify_loop rom_data file_size 0 0,
                          log_signal (Prod ProdDone),
                          progress_signal 100,
                          finished_signal True]))))))))))
       (\<lambda>e. block [log_signal (Prod (ProdFailed e)), finished_signal False])"

section \<open>The vocabulary of the specification\<close>

text \<open>
  The frame layout of the specification, \<open>[size:u16 LE][opcode][body][0, 0]\<close>, the
  little-endian values of a response, and the writes of a mapping set, in its words.
  \<open>sent as n\<close> is the world after the actions \<open>as\<close> have left the host and \<open>n\<close> reads
  were made; \<open>polled_word s k\<close> is the 16-bit value a two-byte \<open>readRom\<close> decodes from the
  \<open>k\<close>-th read; \<open>world0 d r\<close> is a worker about to start on port COM3 with the device \<open>d\<close>
  and the flag readings \<open>r\<close>, \<open>silent\<close> the device that never answers, \<open>answering table\<close> the device that
  answers the reads listed in \<open>table\<close> as listed and every other read with the byte 0xAA, and
  \<open>cfi_128MiB\<close> the answer to the CFI read of a 128 MiB Flash with 1024 sectors of 128 KiB
  and a write buffer of 512 bytes; \<open>rounds body n\<close> is the world after \<open>n\<close> rounds of a loop that did not
  leave it.
\<close>

definition le16 :: "int \<Rightarrow> byte list" where
  "le16 v = [word_of_int (v mod 256), word_of_int (v div 256 mod 256)]"

definition le32 :: "int \<Rightarrow> byte list" where
  "le32 v =
     [word_of_int (v mod 256), word_of_int (v div 256 mod 256),
      word_of_int (v div 65536 mod 256), word_of_int (v div 16777216 mod 256)]"

definition spec_frame :: "byte \<Rightarrow> byte list \<Rightarrow> byte list" where
  "spec_frame opcode body = le16 (2 + 1 + int (length body) + 2) @ [opcode] @ body @ [0, 0]"

definition spec_size_field :: "byte list \<Rightarrow> int" where
  "spec_size_field f = uint (f ! 0) + 256 * uint (f ! 1)"

definition sized_frames_since :: "world \<Rightarrow> world \<Rightarrow> bool" where
  "sized_frames_since s s' =
     (\<exists>fs. wire s' = wire s @ map Tx fs \<and> list_all (\<lambda>f. spec_size_field f = int (length f)) fs)"

definition spec_writeRom :: "int \<Rightarrow> int \<Rightarrow> byte list" where
  "spec_writeRom addr_word v = spec_frame 0xF5 (le32 addr_word @ le16 v)"

definition spec_readRom :: "int \<Rightarrow> int \<Rightarrow> byte list" where
  "spec_readRom addr_word n = spec_frame 0xF6 (le32 (addr_word * 2) @ le16 n)"

definition spec_le16_values :: "byte list \<Rightarrow> nat \<Rightarrow> int" where
  "spec_le16_values bs i = uint (bs ! (2 * i)) + 256 * uint (bs ! (2 * i + 1))"

definition sent :: "action list \<Rightarrow> nat \<Rightarrow> world \<Rightarrow> world" where
  "sent as n s = s\<lparr>wire := wire s @ as, reads := reads s + n\<rparr>"

definition spec_mapping_writes :: "int list \<Rightarrow> action list" where
  "spec_mapping_writes m =
     concat (map (\<lambda>i. [Tx (spec_writeRom 0xFFFFFF 0xA558), Tx (spec_writeRom 0xFFFFFF 0xA558),
                       Tx (spec_writeRom 0xFFFFFF (m ! i)), Tx (spec_writeRom 0xFFFFFF (m ! i))])
                 [0..<8])"

definition mapping_quads :: "int list \<Rightarrow> action list" where
  "mapping_quads ms =
     concat (map (\<lambda>e. [Tx (spec_writeRom 0xFFFFFF 0xA558), Tx (spec_writeRom 0xFFFFFF 0xA558),
                       Tx (spec_writeRom 0xFFFFFF e), Tx (spec_writeRom 0xFFFFFF e)]) ms)"

fun rounds :: "bool io \<Rightarrow> nat \<Rightarrow> world \<Rightarrow> world option" where
  "rounds body 0 s = Some s"
| "rounds body (Suc n) s =
     (case body s of Some (Inr False, s') \<Rightarrow> rounds body n s' | _ \<Rightarrow> None)"

definition world0 :: "(nat \<Rightarrow> byte list) \<Rightarrow> (nat \<Rightarrow> bool) \<Rightarrow> world" where
  "world0 d r =
     \<lparr>port_name = ''COM3'', dev = d, reads = 0, wire = [], running = r, polls = 0,
      rng = (\<lambda>_. 0), signals = [], sink = []\<rparr>"

definition silent :: "nat \<Rightarrow> byte list" where
  "silent k = []"

definition answering :: "(nat \<times> byte list) list \<Rightarrow> nat \<Rightarrow> byte list" where
  "answering table k = (case map_of table k of Some bytes \<Rightarrow> bytes | None \<Rightarrow> [0xAA])"

definition cfi_128MiB :: "byte list" where
  "cfi_128MiB =
     [0, 0, 0x1B, 0, 0, 0, 0, 0, 0x09, 0, 0, 0, 0, 0, 0xFF, 0, 0x03, 0, 0x00, 0, 0x02, 0]"

definition polled_word :: "world \<Rightarrow> nat \<Rightarrow> error + int" where
  "polled_word s k = unpack_H (drop 2 (take 4 (dev s k)))"

definition spec_erase_sector_writes :: "int \<Rightarrow> action list" where
  "spec_erase_sector_writes A =
     [Tx (spec_writeRom 0x555 0xAA), Tx (spec_writeRom 0x2AA 0x55), Tx (spec_writeRom 0x555 0x80),
      Tx (spec_writeRom 0x555 0xAA), Tx (spec_writeRom 0x2AA 0x55), Tx (spec_writeRom A 0x30)]"

definition spec_erase_polls :: "int \<Rightarrow> nat \<Rightarrow> action list" where
  "spec_erase_polls A n =
     concat (replicate n [Tx (spec_readRom A 2), Sleep 100]) @ [Tx (spec_readRom A 2)]"

definition busy_once :: "nat \<Rightarrow> byte list" where
  "busy_once = answering [(6, [0, 0, 0x34, 0x12]), (7, [0, 0, 0xFF, 0xFF])]"

definition all_disabled :: QualityCheckConfig where
  "all_disabled = \<lparr>enable_sram_test = False, enable_flash_erase = False, enable_ppb_unlock = False,
     enable_fast_flash = False, enable_full_sram = False, enable_ram_flash = False\<rparr>"

definition default_config :: QualityCheckConfig where
  "default_config = \<lparr>enable_sram_test = False, enable_flash_erase = False, enable_ppb_unlock = True,
     enable_fast_flash = False, enable_full_sram = True, enable_ram_flash = False\<rparr>"

definition adv :: "action list \<Rightarrow> nat \<Rightarrow> signal list \<Rightarrow> nat \<Rightarrow> byte list \<Rightarrow> world \<Rightarrow> world" where
  "adv as n sg p out s =
     s\<lparr>wire := wire s @ as, reads := reads s + n, signals := signals s @ sg,
       polls := polls s + p, sink := sink s @ out\<rparr>"

definition spec_programRom :: "int \<Rightarrow> int \<Rightarrow> byte list \<Rightarrow> byte list" where
  "spec_programRom addr_byte bwb data = spec_frame 0xF4 (le32 addr_byte @ le16 bwb @ data)"

definition spec_mode_set_writes :: "int \<Rightarrow> action list" where
  "spec_mode_set_writes config =
     [Tx (spec_writeRom 0xFFFFFF 0xA55A), Tx (spec_writeRom 0xFFFFFF 0xA55A),
      Tx (spec_writeRom 0xFFFFFF config), Tx (spec_writeRom 0xFFFFFF config)]"

definition spec_cfi_query :: "action list" where
  "spec_cfi_query = [Tx (spec_writeRom 0x55 0x98), Tx (spec_readRom 0x27 20), Tx (spec_writeRom 0 0xF0)]"

definition spec_three_byte_wire :: "int \<Rightarrow> nat \<Rightarrow> action list" where
  "spec_three_byte_wire bwb n =
     spec_mode_set_writes 0x84 @ mapping_quads [0, 1, 2, 3, 4, 5, 6, 7] @ [Sleep 10] @
     spec_cfi_query @
     spec_erase_sector_writes 0 @ [Sleep 10] @ spec_erase_polls 0 n @
     spec_mode_set_writes 0x84 @ mapping_quads [0, 1, 2, 3, 4, 5, 6, 7] @ [Sleep 10] @
     [Tx (spec_programRom 0 bwb ([0x01, 0x02, 0x03, 0x00] @ replicate 2044 0xFF))] @
     mapping_quads [0, 1, 2, 3, 4, 5, 6, 7] @
     [Tx (spec_readRom 0 4)]"

definition three_byte_signals :: "string \<Rightarrow> int \<Rightarrow> int \<Rightarrow> signal list" where
  "three_byte_signals port ss bwb =
     [Log port (Prod ProdStarted), Log port (Prod (ProdFileSize 3)), Log port (Prod ProdWriting),
      Log port (Prod (ProdGeometry ss bwb)), Log port (Prod (ProdErasing 1)),
      Progress port 50, Log port (Prod (ProdErased 1 1)), Log port (Prod ProdEraseDone),
      Log port (Prod (ProdWritten 2048 4 51200)), Progress port 25650,
      Log port (Prod ProdVerifying), Log port (Prod (ProdVerified 0 0)),
      Log port (Prod ProdDone), Progress port 100, Finished port True]"

definition healthy_device :: "nat \<Rightarrow> byte list" where
  "healthy_device =
     answering [(37, cfi_128MiB), (45, [0, 0, 0xFF, 0xFF]), (115, [0, 0, 0x01, 0x02, 0x03, 0x00])]"

definition three_byte_failed_signals :: "string \<Rightarrow> int \<Rightarrow> int \<Rightarrow> signal list" where
  "three_byte_failed_signals port ss bwb =
     [Log port (Prod ProdStarted), Log port (Prod (ProdFileSize 3)), Log port (Prod ProdWriting),
      Log port (Prod (ProdGeometry ss bwb)), Log port (Prod (ProdErasing 1)),
      Progress port 50, Log port (Prod (ProdErased 1 1)), Log port (Prod ProdEraseDone),
      Log port (Prod (ProdWritten 2048 4 51200)), Progress port 25650,
      Log port (Prod ProdVerifying), Log port (Prod (ProdFailed (Failure (VerifyFailed 0)))),
      Finished port False]"

text \<open>A device that answers as the healthy one does, but returns 0xFF where the pad byte was written.\<close>

definition stale_device :: "nat \<Rightarrow> byte list" where
  "stale_device =
     answering [(37, cfi_128MiB), (45, [0, 0, 0xFF, 0xFF]), (115, [0, 0, 0x01, 0x02, 0x03, 0xFF])]"

definition opcode_is :: "byte \<Rightarrow> action \<Rightarrow> bool" where
  "opcode_is opcode a = (case a of Tx f \<Rightarrow> 2 < length f \<and> f ! 2 = opcode | Sleep ms \<Rightarrow> False)"

definition writes_value :: "int \<Rightarrow> action \<Rightarrow> bool" where
  "writes_value v a =
     (case a of Tx f \<Rightarrow> length f = 11 \<and> f ! 2 = 0xF5 \<and> [f ! 7, f ! 8] = le16 v
      | Sleep ms \<Rightarrow> False)"

definition magic_value :: "action \<Rightarrow> int option" where
  "magic_value a =
     (case a of
        Tx f \<Rightarrow> if length f = 11 \<and> take 7 f = [0x0B, 0, 0xF5, 0xFF, 0xFF, 0xFF, 0]
                then Some (uint (f ! 7) + 256 * uint (f ! 8)) else None
      | Sleep ms \<Rightarrow> None)"

fun track_mapping :: "int list \<Rightarrow> int list \<Rightarrow> int list \<Rightarrow> int list" where
  "track_mapping (a # b # c # d # vs) pending current =
     (if a = 0xA558 \<and> b = 0xA558 \<and> c = d
      then (if length pending = 7 then track_mapping vs [] (pending @ [c])
            else track_mapping vs (pending @ [c]) current)
      else track_mapping vs pending current)"
| "track_mapping vs pending current = current"

definition active_mapping :: "action list \<Rightarrow> int list" where
  "active_mapping w = track_mapping (List.map_filter magic_value w) [] []"

definition fast_flash_only :: QualityCheckConfig where
  "fast_flash_only = \<lparr>enable_sram_test = False, enable_flash_erase = False, enable_ppb_unlock = False,
     enable_fast_flash = True, enable_full_sram = False, enable_ram_flash = False\<rparr>"

definition first_window_device :: "nat \<Rightarrow> byte list" where
  "first_window_device =
     answering ((37, cfi_128MiB) # map (\<lambda>i. (45 + 7 * i, [0, 0, 0xFF, 0xFF])) [0..<32])"

definition first_window_erases :: "action list" where
  "first_window_erases =
     concat (map (\<lambda>i. spec_erase_sector_writes (drop_bit 1 (0 + i * 131072)) @
                       [Sleep 10, Tx (spec_readRom (drop_bit 1 (0 + i * 131072)) 2)])
                 (py_range 32))"

definition fast_qa_wire_before :: "action list" where
  "fast_qa_wire_before =
     spec_mode_set_writes 0x84 @ mapping_quads [0, 1, 2, 3, 4, 5, 6, 7] @ spec_cfi_query @
     first_window_erases @
     take 5 (spec_erase_sector_writes (drop_bit 1 (134217728 - 4 * 1024 * 1024)))"

definition fast_qa_signals :: "signal list" where
  "fast_qa_signals =
     [Log ''COM3'' (Qa QaStarted), Log ''COM3'' (Qa (QaStepFastFlash 1 1)),
      Progress ''COM3'' 50, Log ''COM3'' (Qa (QaErasedSectors 10 128)),
      Log ''COM3'' (Qa (QaErasedSectors 20 128)), Log ''COM3'' (Qa (QaErasedSectors 30 128)),
      Log ''COM3'' (Qa (QaFailed StructError)), Finished ''COM3'' False]"

definition spec_windowed_read :: "int \<Rightarrow> int \<Rightarrow> action list" where
  "spec_windowed_read total_size L =
     (if L \<noteq> 0 \<and> L mod 33554432 = 0
      then mapping_quads (segment_mapping (L div 33554432 * 8)) else []) @
     [Tx (spec_readRom (drop_bit 1 (L mod 33554432)) (min 4096 (total_size - L)))]"

section \<open>Frames\<close>

lemma pack_H_Inr: "pack_H v = Inr b \<longleftrightarrow> 0 \<le> v \<and> v < 65536 \<and> b = le16 v"
  by (auto simp: pack_H_def le16_def)

lemma pack_I_Inr: "pack_I v = Inr b \<longleftrightarrow> 0 \<le> v \<and> v < 4294967296 \<and> b = le32 v"
  by (auto simp: pack_I_def le32_def)

lemma pack_B_Inr: "pack_B v = Inr b \<longleftrightarrow> 0 \<le> v \<and> v < 256 \<and> b = [word_of_int (v mod 256)]"
  by (auto simp: pack_B_def)

lemma length_le16 [simp]: "length (le16 v) = 2" by (simp add: le16_def)

lemma length_le32 [simp]: "length (le32 v) = 4" by (simp add: le32_def)

lemma unpack_H_le16: "0 \<le> v \<Longrightarrow> v < 65536 \<Longrightarrow> unpack_H (le16 v) = Inr v"
proof -
  assume a: "0 \<le> v" "v < 65536"
  have "v div 256 < 256" using a by simp
  moreover have "0 \<le> v div 256" using a by simp
  ultimately have "(v div 256) mod 256 = v div 256" by simp
  then show ?thesis
    by (simp add: unpack_H_def le16_def uint_word_of_int)
qed

lemma ebind_Inr: "ebind r f = Inr y \<longleftrightarrow> (\<exists>x. r = Inr x \<and> f x = Inr y)"
  by (cases r) (simp_all add: ebind_def)

lemma size_field_le16: "0 \<le> v \<Longrightarrow> v < 65536 \<Longrightarrow> spec_size_field (le16 v @ rest) = v"
  using unpack_H_le16[of v] by (simp add: spec_size_field_def unpack_H_def le16_def)

lemma writeRom_cmd_size: "writeRom_cmd a d = Inr f \<Longrightarrow> spec_size_field f = int (length f)"
  by (cases d) (auto simp: writeRom_cmd_def ebind_Inr pack_H_Inr pack_I_Inr size_field_le16)

lemma readRom_cmd_size: "readRom_cmd a n = Inr f \<Longrightarrow> spec_size_field f = int (length f)"
  by (auto simp: readRom_cmd_def ebind_Inr pack_H_Inr pack_I_Inr size_field_le16)

lemma writeRam_cmd_size: "writeRam_cmd a d = Inr f \<Longrightarrow> spec_size_field f = int (length f)"
  by (cases d) (auto simp: writeRam_cmd_def ebind_Inr pack_H_Inr pack_I_Inr pack_B_Inr size_field_le16)

lemma readRam_cmd_size: "readRam_cmd a n = Inr f \<Longrightarrow> spec_size_field f = int (length f)"
  by (auto simp: readRam_cmd_def ebind_Inr pack_H_Inr pack_I_Inr size_field_le16)

lemma programRom_cmd_size: "programRom_cmd a d b = Inr f \<Longrightarrow> spec_size_field f = int (length f)"
  by (cases d) (auto simp: programRom_cmd_def ebind_Inr pack_H_Inr pack_I_Inr size_field_le16)

lemma sized_refl: "sized_frames_since s s"
  by (auto simp: sized_frames_since_def intro: exI[of _ "[]"])

lemma sized_trans: "sized_frames_since s s' \<Longrightarrow> sized_frames_since s' s'' \<Longrightarrow> sized_frames_since s s''"
  unfolding sized_frames_since_def
  apply (elim exE conjE)
  subgoal for fs gs by (rule exI[of _ "fs @ gs"]) simp
  done

lemma sized_one: "wire s' = wire s @ [Tx f] \<Longrightarrow> spec_size_field f = int (length f) \<Longrightarrow> sized_frames_since s s'"
  unfolding sized_frames_since_def by (rule exI[of _ "[f]"]) simp

lemma lift_cases: "lift r s = (case r of Inl e \<Rightarrow> Some (Inl e, s) | Inr x \<Rightarrow> Some (Inr x, s))"
  by (cases r) (simp_all add: lift_def raise_def ret_def)

lemma writeRom_sized: "writeRom a d s = Some (r, s') \<Longrightarrow> sized_frames_since s s'"
  by (cases "writeRom_cmd a d")
     (auto simp: writeRom_def bnd_def thn_def lift_cases ser_write_def ser_read_def
           intro: sized_refl sized_one writeRom_cmd_size)

lemma readRom_sized: "readRom a n s = Some (r, s') \<Longrightarrow> sized_frames_since s s'"
  by (cases "readRom_cmd a n")
     (auto simp: readRom_def bnd_def thn_def lift_cases ser_write_def ser_read_def ret_def
           intro: sized_refl sized_one readRom_cmd_size)

lemma writeRam_sized: "writeRam a d s = Some (r, s') \<Longrightarrow> sized_frames_since s s'"
  by (cases "writeRam_cmd a d")
     (auto simp: writeRam_def bnd_def thn_def lift_cases ser_write_def ser_read_def
           intro: sized_refl sized_one writeRam_cmd_size)

lemma readRam_sized: "readRam a n s = Some (r, s') \<Longrightarrow> sized_frames_since s s'"
  by (cases "readRam_cmd a n")
     (auto simp: readRam_def bnd_def thn_def lift_cases ser_write_def ser_read_def ret_def
           intro: sized_refl sized_one readRam_cmd_size)

lemma bnd_SomeE:
  assumes "bnd m f s = Some (r, s')"
  obtains e where "m s = Some (Inl e, s')" "r = Inl e"
  | x s1 where "m s = Some (Inr x, s1)" "f x s1 = Some (r, s')"
  using assms by (auto simp: bnd_def split: option.splits sum.splits)

lemma thn_SomeE:
  assumes "thn m k s = Some (r, s')"
  obtains e where "m s = Some (Inl e, s')" "r = Inl e"
  | x s1 where "m s = Some (Inr x, s1)" "k s1 = Some (r, s')"
  using assms unfolding thn_def by (erule bnd_SomeE)

lemma getRomCFI_sized: "getRomCFI s = Some (r, s') \<Longrightarrow> sized_frames_since s s'"
  unfolding getRomCFI_def
  by (auto elim!: thn_SomeE bnd_SomeE simp: lift_cases split: sum.splits
       intro: sized_trans dest!: writeRom_sized readRom_sized)

lemma sent_sent [simp]: "sent as n (sent bs m s) = sent (bs @ as) (m + n) s"
  by (simp add: sent_def)

lemma sent_fields [simp]:
  "wire (sent as n s) = wire s @ as" "reads (sent as n s) = reads s + n"
  "dev (sent as n s) = dev s" "running (sent as n s) = running s"
  "polls (sent as n s) = polls s" "signals (sent as n s) = signals s"
  "sink (sent as n s) = sink s" "port_name (sent as n s) = port_name s" "rng (sent as n s) = rng s"
  by (simp_all add: sent_def)

lemma sent_nil [simp]: "sent [] 0 s = s" by (simp add: sent_def)

lemma world0_fields [simp]:
  "dev (world0 d r) = d" "reads (world0 d r) = 0" "wire (world0 d r) = []"
  "running (world0 d r) = r" "polls (world0 d r) = 0" "signals (world0 d r) = []"
  "sink (world0 d r) = []" "port_name (world0 d r) = ''COM3''" "rng (world0 d r) k = 0"
  by (simp_all add: world0_def)

lemma magic_addr_word [simp]:
  "drop_bit (Suc 0) MAGIC_ADDRESS = 0xFFFFFF" "drop_bit 1 MAGIC_ADDRESS = 0xFFFFFF"
  by (simp_all add: MAGIC_ADDRESS_def drop_bit_eq_div)

lemma writeRom_PInt:
  "0 \<le> a \<Longrightarrow> a < 4294967296 \<Longrightarrow> 0 \<le> v \<Longrightarrow> v < 65536 \<Longrightarrow>
   writeRom a (PInt v) s = Some (Inr (take 1 (dev s (reads s))), sent [Tx (spec_writeRom a v)] 1 s)"
  by (simp add: writeRom_def writeRom_cmd_def ebind_def pack_H_def pack_I_def bnd_def thn_def
        lift_def ret_def ser_write_def ser_read_def sent_def spec_writeRom_def spec_frame_def
        le16_def le32_def)

lemma readRom_eff:
  "0 \<le> a \<Longrightarrow> a < 2147483648 \<Longrightarrow> 0 \<le> n \<Longrightarrow> n < 65536 \<Longrightarrow>
   readRom a n s = Some (Inr (drop 2 (take (nat (n + 2)) (dev s (reads s)))), sent [Tx (spec_readRom a n)] 1 s)"
  by (simp add: readRom_def readRom_cmd_def ebind_def pack_H_def pack_I_def bnd_def thn_def
        lift_def ret_def ser_write_def ser_read_def sent_def spec_readRom_def spec_frame_def
        le16_def le32_def push_bit_eq_mult)

lemma set_sc_mode_eff:
  assumes "0 \<le> sc_config a b c d e" "sc_config a b c d e < 65536"
  shows "set_sc_mode a b c d e s =
     Some (Inr True, sent [Tx (spec_writeRom 0xFFFFFF 0xA55A), Tx (spec_writeRom 0xFFFFFF 0xA55A),
        Tx (spec_writeRom 0xFFFFFF (sc_config a b c d e)), Tx (spec_writeRom 0xFFFFFF (sc_config a b c d e))] 4 s)"
  using assms
  by (simp add: set_sc_mode_def Let_def MAGIC_ADDRESS_def MAGIC_VALUE_def thn_def bnd_def
        writeRom_PInt ret_def drop_bit_eq_div)

lemma sc_config_range:
  assumes "a \<in> {0, 1}" "b \<in> {0, 1}" "c \<in> {0, 1}" "d \<in> {0, 1}" "0 \<le> e" "e < 16"
  shows "0 \<le> sc_config a b c d e \<and> sc_config a b c d e < 65536"
proof -
  have nn: "0 \<le> sc_config a b c d e" using assms by (auto simp: sc_config_def)
  have "push_bit 4 e < 2 ^ 16" using assms by (simp add: push_bit_eq_mult)
  moreover have "a < 2 ^ 16" "push_bit 1 b < 2 ^ 16" "push_bit 2 c < 2 ^ 16" "push_bit 3 d < 2 ^ 16"
    using assms by (auto simp: push_bit_eq_mult)
  ultimately have "sc_config a b c d e < 2 ^ 16"
    using assms unfolding sc_config_def
    by (intro OR_upper) (auto simp: push_bit_eq_mult)
  with nn show ?thesis by simp
qed

lemma slice2: "j = i + 2 \<Longrightarrow> j \<le> length xs \<Longrightarrow> py_slice i j xs = [xs ! i, xs ! (i + 1)]"
proof -
  assume a: "j = i + 2" "j \<le> length xs"
  then have "drop i xs = xs ! i # xs ! Suc i # drop (Suc (Suc i)) xs"
    by (simp add: Cons_nth_drop_Suc)
  then show ?thesis using a by (simp add: py_slice_def)
qed

lemma parse_cfi_eff:
  assumes "length cfi = 20"
  shows "parse_cfi cfi = Inr \<lparr>cfi_device_size = 2 ^ nat (spec_le16_values cfi 0),
          cfi_sector_count = (push_bit 8 (spec_le16_values cfi 7 AND 0xff) OR (spec_le16_values cfi 6 AND 0xff)) + 1,
          cfi_sector_size = (push_bit 8 (spec_le16_values cfi 9 AND 0xff) OR (spec_le16_values cfi 8 AND 0xff)) * 256,
          cfi_buffer_write_bytes = (if spec_le16_values cfi 3 \<noteq> 0 then 2 ^ nat (spec_le16_values cfi 3) else 0)\<rparr>"
  using assms
  by (simp add: parse_cfi_def slice2 ebind_def unpack_H_def spec_le16_values_def)

lemma getRomCFI_eff:
  "getRomCFI s = Some (case parse_cfi (drop 2 (take 22 (dev s (Suc (reads s))))) of Inl e \<Rightarrow> Inl e | Inr c \<Rightarrow> Inr c,
     sent [Tx (spec_writeRom 0x55 0x98), Tx (spec_readRom 0x27 20), Tx (spec_writeRom 0 0xF0)] 3 s)"
  by (simp add: getRomCFI_def thn_def bnd_def writeRom_PInt readRom_eff lift_cases split: sum.splits)

lemma mapping_quads_spec: "length m = 8 \<Longrightarrow> spec_mapping_writes m = mapping_quads m"
proof -
  assume "length m = 8"
  then have "m = map (\<lambda>i. m ! i) [0..<8]" by (metis map_nth)
  then have "mapping_quads m = mapping_quads (map (\<lambda>i. m ! i) [0..<8])" by simp
  also have "\<dots> = spec_mapping_writes m"
    unfolding mapping_quads_def spec_mapping_writes_def by (simp only: map_map o_def)
  finally show ?thesis by simp
qed

lemma length_mapping_quads [simp]: "length (mapping_quads ms) = 4 * length ms"
  by (induction ms) (simp_all add: mapping_quads_def)

lemma set_flashmapping_loop_eff:
  "list_all (\<lambda>e. 0 \<le> e \<and> e < 65536) ms \<Longrightarrow>
   set_flashmapping_loop 0xFFFFFF ms s = Some (Inr (), sent (mapping_quads ms) (4 * length ms) s)"
proof (induction ms arbitrary: s)
  case Nil
  then show ?case by (simp add: ret_def mapping_quads_def)
next
  case (Cons e ms)
  then show ?case
    by (simp add: thn_def bnd_def writeRom_PInt mapping_quads_def)
qed

lemma set_flashmapping_eff:
  "length m = 8 \<Longrightarrow> list_all (\<lambda>e. 0 \<le> e \<and> e < 65536) m \<Longrightarrow>
   set_flashmapping m s = Some (Inr True, sent (mapping_quads m) 32 s)"
  by (simp add: set_flashmapping_def thn_def bnd_def set_flashmapping_loop_eff ret_def
        MAGIC_ADDRESS_def drop_bit_eq_div)

lemma while_True_rounds:
  "rounds body n s = Some s1 \<Longrightarrow> while_True body s = while_True body s1"
proof (induction n arbitrary: s)
  case 0
  then show ?case by simp
next
  case (Suc n)
  then obtain s' where b: "body s = Some (Inr False, s')" and r: "rounds body n s' = Some s1"
    by (auto split: option.splits sum.splits bool.splits if_splits)
  have "while_True body s = while_True body s'"
    by (subst while_True.simps) (simp add: b)
  with Suc.IH[OF r] show ?case by simp
qed

lemma while_True_left:
  "rounds body n s = Some s1 \<Longrightarrow> body s1 = Some (Inr True, s') \<Longrightarrow>
   while_True body s = Some (Inr (), s')"
  by (simp add: while_True_rounds) (subst while_True.simps, simp)

lemma while_True_raised:
  "rounds body n s = Some s1 \<Longrightarrow> body s1 = Some (Inl e, s') \<Longrightarrow>
   while_True body s = Some (Inl e, s')"
  by (simp add: while_True_rounds) (subst while_True.simps, simp)

lemma while_True_Some_aux:
  "while_True body s = Some y \<Longrightarrow>
     \<exists>n s1. rounds body n s = Some s1 \<and>
           ((fst y = Inr () \<and> body s1 = Some (Inr True, snd y)) \<or>
            (\<exists>e. fst y = Inl e \<and> body s1 = Some (Inl e, snd y)))"
proof (induction body s y rule: while_True.raw_induct[rotated 1, consumes 1])
    case (1 wt body s y)
    show ?case
    proof (cases "body s")
      case None
      with 1(2) show ?thesis by simp
    next
      case (Some p)
      obtain res s2 where p: "p = (res, s2)" by (cases p)
      show ?thesis
      proof (cases res)
        case (Inl e)
        with 1(2) Some p have "y = (Inl e, s2)" by simp
        with Some p Inl show ?thesis by - (rule exI[of _ 0], rule exI[of _ s], simp)
      next
        case (Inr left)
        show ?thesis
        proof (cases left)
          case True
          with 1(2) Some p Inr have "y = (Inr (), s2)" by simp
          with Some p Inr True show ?thesis by - (rule exI[of _ 0], rule exI[of _ s], simp)
        next
          case False
          with 1(2) Some p Inr have "wt body s2 = Some y" by simp
          from 1(1)[OF this] obtain n s1 where
            "rounds body n s2 = Some s1"
            "(fst y = Inr () \<and> body s1 = Some (Inr True, snd y)) \<or> (\<exists>e. fst y = Inl e \<and> body s1 = Some (Inl e, snd y))"
            by blast
          with Some p Inr False show ?thesis
            by - (rule exI[of _ "Suc n"], rule exI[of _ s1], simp)
        qed
      qed
    qed
  qed

lemma while_True_Some:
  assumes "while_True body s = Some (r, s')"
  shows "\<exists>n s1. rounds body n s = Some s1 \<and>
           ((r = Inr () \<and> body s1 = Some (Inr True, s')) \<or> (\<exists>e. r = Inl e \<and> body s1 = Some (Inl e, s')))"
  using while_True_Some_aux[OF assms] by simp

section \<open>C4: the size field of a frame\<close>

lemma lift_SomeD: "lift x s = Some (r, s') \<Longrightarrow> s' = s"
  by (cases x) (simp_all add: lift_cases)

lemma programRom_sized: "programRom a d b s = Some (r, s') \<Longrightarrow> sized_frames_since s s'"
proof -
  assume run: "programRom a d b s = Some (r, s')"
  have pre: "(case b of None \<Rightarrow> bnd getRomCFI (\<lambda>cfi. ret (cfi_buffer_write_bytes cfi)) | Some v \<Rightarrow> ret v) s = Some (r1, s1)
     \<Longrightarrow> sized_frames_since s s1" for r1 s1
    by (cases b) (auto simp: ret_def sized_refl elim!: bnd_SomeE dest: getRomCFI_sized)
  have post: "bnd (lift (programRom_cmd a (PBytes d') v)) (\<lambda>cmd.
       thn (ser_write cmd) (bnd (ser_read 1) (\<lambda>ack. ret (ack = [0xaa])))) s1 = Some (r, s')
     \<Longrightarrow> sized_frames_since s1 s'" for d' v s1
    by (cases "programRom_cmd a (PBytes d') v")
       (auto simp: bnd_def thn_def lift_cases ser_write_def ser_read_def ret_def
             intro: sized_refl sized_one programRom_cmd_size)
  from run show ?thesis
    unfolding programRom_def
  proof (cases rule: bnd_SomeE)
    case (1 e)
    then show ?thesis by (auto dest: lift_SomeD simp: sized_refl)
  next
    case (2 d' s1)
    then have s1: "s1 = s" by (auto dest: lift_SomeD)
    from 2(2) show ?thesis
    proof (cases rule: bnd_SomeE)
      case (1 e)
      then show ?thesis using pre s1 by simp
    next
      case (2 v s2)
      with pre s1 have "sized_frames_since s s2" by simp
      moreover from 2(2) have "sized_frames_since s2 s'" by (rule post)
      ultimately show ?thesis by (rule sized_trans)
    qed
  qed
qed

text \<open>
  Claim C4. Every command frame that a driver operation (\<open>writeRom\<close>, \<open>readRom\<close>,
  \<open>writeRam\<close>, \<open>readRam\<close>, \<open>programRom\<close>) puts on the wire, for any address and any
  payload, carries in its first two bytes, read as a little-endian u16, the number of
  bytes of the whole frame: size field, opcode, body and the two zero bytes of the CRC
  placeholder. (An operation whose arguments \<open>struct.pack\<close> rejects raises before it
  writes and puts no frame on the wire.)
\<close>

theorem command_frames_carry_their_length:
  "(writeRom a d s = Some (r1, s1) \<longrightarrow> sized_frames_since s s1) \<and>
   (readRom a n s = Some (r2, s2) \<longrightarrow> sized_frames_since s s2) \<and>
   (writeRam a d s = Some (r3, s3) \<longrightarrow> sized_frames_since s s3) \<and>
   (readRam a n s = Some (r4, s4) \<longrightarrow> sized_frames_since s s4) \<and>
   (programRom a d b s = Some (r5, s5) \<longrightarrow> sized_frames_since s s5)"
  by (intro conjI impI)
     (erule writeRom_sized readRom_sized writeRam_sized readRam_sized programRom_sized)+

theorem command_frames_carry_their_length_witness:
  "writeRom 0x555 (PInt 0xAA) (world0 silent (\<lambda>_. True)) =
     Some (Inr [], sent [Tx [0x0B, 0, 0xF5, 0x55, 0x05, 0, 0, 0xAA, 0, 0, 0]] 1 (world0 silent (\<lambda>_. True))) \<and>
   sized_frames_since (world0 silent (\<lambda>_. True))
     (sent [Tx [0x0B, 0, 0xF5, 0x55, 0x05, 0, 0, 0xAA, 0, 0, 0]] 1 (world0 silent (\<lambda>_. True))) \<and>
   readRom 0x27 20 (world0 silent (\<lambda>_. True)) =
     Some (Inr [], sent [Tx [0x0B, 0, 0xF6, 0x4E, 0, 0, 0, 20, 0, 0, 0]] 1 (world0 silent (\<lambda>_. True))) \<and>
   sized_frames_since (world0 silent (\<lambda>_. True))
     (sent [Tx [0x0B, 0, 0xF6, 0x4E, 0, 0, 0, 20, 0, 0, 0]] 1 (world0 silent (\<lambda>_. True))) \<and>
   writeRam 0 (PBytes [0xAA, 0x55, 0x12, 0x34]) (world0 silent (\<lambda>_. True)) =
     Some (Inr [], sent [Tx [0x0D, 0, 0xF7, 0, 0, 0, 0, 0xAA, 0x55, 0x12, 0x34, 0, 0]] 1 (world0 silent (\<lambda>_. True))) \<and>
   sized_frames_since (world0 silent (\<lambda>_. True))
     (sent [Tx [0x0D, 0, 0xF7, 0, 0, 0, 0, 0xAA, 0x55, 0x12, 0x34, 0, 0]] 1 (world0 silent (\<lambda>_. True))) \<and>
   readRam 2 2 (world0 silent (\<lambda>_. True)) =
     Some (Inr [], sent [Tx [0x0B, 0, 0xF8, 2, 0, 0, 0, 2, 0, 0, 0]] 1 (world0 silent (\<lambda>_. True))) \<and>
   sized_frames_since (world0 silent (\<lambda>_. True))
     (sent [Tx [0x0B, 0, 0xF8, 2, 0, 0, 0, 2, 0, 0, 0]] 1 (world0 silent (\<lambda>_. True))) \<and>
   programRom 0x800 (PBytes [1, 2]) (Some 512) (world0 silent (\<lambda>_. True)) =
     Some (Inr False, sent [Tx [0x0D, 0, 0xF4, 0, 0x08, 0, 0, 0, 0x02, 1, 2, 0, 0]] 1 (world0 silent (\<lambda>_. True))) \<and>
   sized_frames_since (world0 silent (\<lambda>_. True))
     (sent [Tx [0x0D, 0, 0xF4, 0, 0x08, 0, 0, 0, 0x02, 1, 2, 0, 0]] 1 (world0 silent (\<lambda>_. True)))"
proof -
  let ?w = "world0 silent (\<lambda>_. True)"
  have 1: "writeRom 0x555 (PInt 0xAA) ?w = Some (Inr [], sent [Tx [0x0B, 0, 0xF5, 0x55, 0x05, 0, 0, 0xAA, 0, 0, 0]] 1 ?w)"
    by (simp add: writeRom_def writeRom_cmd_def ebind_def pack_H_def pack_I_def bnd_def thn_def
          lift_def ret_def ser_write_def ser_read_def sent_def world0_def silent_def)
  have 2: "readRom 0x27 20 ?w = Some (Inr [], sent [Tx [0x0B, 0, 0xF6, 0x4E, 0, 0, 0, 20, 0, 0, 0]] 1 ?w)"
    by (simp add: readRom_def readRom_cmd_def ebind_def pack_H_def pack_I_def bnd_def thn_def
          lift_def ret_def ser_write_def ser_read_def sent_def world0_def silent_def)
  have 3: "writeRam 0 (PBytes [0xAA, 0x55, 0x12, 0x34]) ?w = Some (Inr [], sent [Tx [0x0D, 0, 0xF7, 0, 0, 0, 0, 0xAA, 0x55, 0x12, 0x34, 0, 0]] 1 ?w)"
    by (simp add: writeRam_def writeRam_cmd_def ebind_def pack_H_def pack_I_def bnd_def thn_def
          lift_def ret_def ser_write_def ser_read_def sent_def world0_def silent_def)
  have 4: "readRam 2 2 ?w = Some (Inr [], sent [Tx [0x0B, 0, 0xF8, 2, 0, 0, 0, 2, 0, 0, 0]] 1 ?w)"
    by (simp add: readRam_def readRam_cmd_def ebind_def pack_H_def pack_I_def bnd_def thn_def
          lift_def ret_def ser_write_def ser_read_def sent_def world0_def silent_def)
  have 5: "programRom 0x800 (PBytes [1, 2]) (Some 512) ?w = Some (Inr False, sent [Tx [0x0D, 0, 0xF4, 0, 0x08, 0, 0, 0, 0x02, 1, 2, 0, 0]] 1 ?w)"
    by (simp add: programRom_def programRom_cmd_def ebind_def pack_H_def pack_I_def bnd_def thn_def
          lift_def ret_def ser_write_def ser_read_def sent_def world0_def silent_def)
  from command_frames_carry_their_length[where a="0x555" and d="PInt 0xAA" and s="?w"] 1
  have a: "sized_frames_since ?w (sent [Tx [0x0B, 0, 0xF5, 0x55, 0x05, 0, 0, 0xAA, 0, 0, 0]] 1 ?w)" by blast
  from command_frames_carry_their_length[where a="0x27" and n=20 and s="?w"] 2
  have b: "sized_frames_since ?w (sent [Tx [0x0B, 0, 0xF6, 0x4E, 0, 0, 0, 20, 0, 0, 0]] 1 ?w)" by blast
  from command_frames_carry_their_length[where a=0 and d="PBytes [0xAA, 0x55, 0x12, 0x34]" and s="?w"] 3
  have c: "sized_frames_since ?w (sent [Tx [0x0D, 0, 0xF7, 0, 0, 0, 0, 0xAA, 0x55, 0x12, 0x34, 0, 0]] 1 ?w)" by blast
  from command_frames_carry_their_length[where a=2 and n=2 and s="?w"] 4
  have d: "sized_frames_since ?w (sent [Tx [0x0B, 0, 0xF8, 2, 0, 0, 0, 2, 0, 0, 0]] 1 ?w)" by blast
  from command_frames_carry_their_length[where a="0x800" and d="PBytes [1, 2]" and b="Some 512" and s="?w"] 5
  have e: "sized_frames_since ?w (sent [Tx [0x0D, 0, 0xF4, 0, 0x08, 0, 0, 0, 0x02, 1, 2, 0, 0]] 1 ?w)" by blast
  from 1 2 3 4 5 a b c d e show ?thesis by (intro conjI)
qed

section \<open>C5: the CFI query\<close>

text \<open>
  Claim C5. The CFI query writes 0x98 to word 0x55, reads 20 bytes at word 0x27 and writes
  0xF0 to word 0x00. For every 20-byte response, read as little-endian 16-bit values
  \<open>v[0..9]\<close>, it returns \<open>device_size = 2^v[0]\<close>, \<open>buffer_write_bytes = 2^v[3]\<close> if
  \<open>v[3] \<noteq> 0\<close> and 0 otherwise, \<open>sector_count = ((v[7] & 0xFF) << 8 | (v[6] & 0xFF)) + 1\<close>
  and \<open>sector_size = ((v[9] & 0xFF) << 8 | (v[8] & 0xFF)) * 256\<close>. (The 20 bytes are what
  \<open>readRom\<close> keeps of the second read of the query: the bytes after the two header bytes.)
\<close>

theorem getRomCFI_fields:
  assumes "length (drop 2 (take 22 (dev s (Suc (reads s))))) = 20"
  shows "\<exists>s'. getRomCFI s =
      Some (Inr \<lparr>cfi_device_size = 2 ^ nat (spec_le16_values (drop 2 (take 22 (dev s (Suc (reads s))))) 0),
         cfi_sector_count =
           (push_bit 8 (spec_le16_values (drop 2 (take 22 (dev s (Suc (reads s))))) 7 AND 0xFF)
            OR (spec_le16_values (drop 2 (take 22 (dev s (Suc (reads s))))) 6 AND 0xFF)) + 1,
         cfi_sector_size =
           (push_bit 8 (spec_le16_values (drop 2 (take 22 (dev s (Suc (reads s))))) 9 AND 0xFF)
            OR (spec_le16_values (drop 2 (take 22 (dev s (Suc (reads s))))) 8 AND 0xFF)) * 256,
         cfi_buffer_write_bytes =
           (if spec_le16_values (drop 2 (take 22 (dev s (Suc (reads s))))) 3 \<noteq> 0
            then 2 ^ nat (spec_le16_values (drop 2 (take 22 (dev s (Suc (reads s))))) 3) else 0)\<rparr>, s') \<and>
     wire s' = wire s @ [Tx (spec_writeRom 0x55 0x98), Tx (spec_readRom 0x27 20),
                         Tx (spec_writeRom 0x00 0xF0)] \<and>
     reads s' = reads s + 3"
  by (simp add: getRomCFI_eff parse_cfi_eff[OF assms])

theorem getRomCFI_fields_witness:
  "length (drop 2 (take 22 (dev (world0 (answering [(1, cfi_128MiB)]) (\<lambda>_. True))
      (Suc (reads (world0 (answering [(1, cfi_128MiB)]) (\<lambda>_. True))))))) = 20 \<and>
   (\<exists>s'. getRomCFI (world0 (answering [(1, cfi_128MiB)]) (\<lambda>_. True)) =
      Some (Inr \<lparr>cfi_device_size = 134217728, cfi_sector_count = 1024,
                 cfi_sector_size = 131072, cfi_buffer_write_bytes = 512\<rparr>, s') \<and>
      wire s' = [Tx [0x0B, 0, 0xF5, 0x55, 0, 0, 0, 0x98, 0, 0, 0],
                 Tx [0x0B, 0, 0xF6, 0x4E, 0, 0, 0, 20, 0, 0, 0],
                 Tx [0x0B, 0, 0xF5, 0, 0, 0, 0, 0xF0, 0, 0, 0]])"
proof -
  let ?w = "world0 (answering [(1, cfi_128MiB)]) (\<lambda>_. True)"
  have d: "dev ?w (Suc (reads ?w)) = cfi_128MiB"
    by (simp add: answering_def)
  have h: "length (drop 2 (take 22 (dev ?w (Suc (reads ?w))))) = 20"
    unfolding d by (simp add: cfi_128MiB_def)
  have v: "spec_le16_values (drop 2 (take 22 cfi_128MiB)) 0 = 27"
    "spec_le16_values (drop 2 (take 22 cfi_128MiB)) 3 = 9"
    "spec_le16_values (drop 2 (take 22 cfi_128MiB)) 6 = 255"
    "spec_le16_values (drop 2 (take 22 cfi_128MiB)) 7 = 3"
    "spec_le16_values (drop 2 (take 22 cfi_128MiB)) 8 = 0"
    "spec_le16_values (drop 2 (take 22 cfi_128MiB)) 9 = 2"
    by (simp_all add: spec_le16_values_def cfi_128MiB_def)
  from getRomCFI_fields[OF h] h show ?thesis
    unfolding d v
    by (auto simp add: spec_writeRom_def spec_readRom_def spec_frame_def le16_def le32_def
          cfi_128MiB_def)
qed

section \<open>C6: mode set\<close>

text \<open>
  Claim C6. A mode-set call with the flags \<open>sdram\<close>, \<open>sd_enable\<close>, \<open>write_enable\<close>,
  \<open>sram_bank\<close> (each 0 or 1) and the control nibble \<open>ctrl\<close> makes exactly four \<open>writeRom\<close>
  writes, all to the magic word address \<open>MAGIC_ADDRESS >> 1\<close>, with the values 0xA55A,
  0xA55A, config, config in this order, where
  \<open>config = (ctrl << 4) | (sdram | (sd_enable << 1) | (write_enable << 2) | (sram_bank << 3))\<close>.
\<close>

theorem set_sc_mode_four_writes:
  assumes "sdram \<in> {0, 1}" "sd_enable \<in> {0, 1}" "write_enable \<in> {0, 1}" "sram_bank \<in> {0, 1}"
    and "0 \<le> ctrl" "ctrl < 16"
  shows "\<exists>s'. set_sc_mode sdram sd_enable write_enable sram_bank ctrl s = Some (Inr True, s') \<and>
     wire s' = wire s @
       [Tx (spec_writeRom (drop_bit 1 MAGIC_ADDRESS) 0xA55A),
        Tx (spec_writeRom (drop_bit 1 MAGIC_ADDRESS) 0xA55A),
        Tx (spec_writeRom (drop_bit 1 MAGIC_ADDRESS)
              (push_bit 4 ctrl OR
                (sdram OR push_bit 1 sd_enable OR push_bit 2 write_enable OR push_bit 3 sram_bank))),
        Tx (spec_writeRom (drop_bit 1 MAGIC_ADDRESS)
              (push_bit 4 ctrl OR
                (sdram OR push_bit 1 sd_enable OR push_bit 2 write_enable OR push_bit 3 sram_bank)))] \<and>
     reads s' = reads s + 4"
proof -
  from sc_config_range[OF assms]
  have "0 \<le> sc_config sdram sd_enable write_enable sram_bank ctrl"
    "sc_config sdram sd_enable write_enable sram_bank ctrl < 65536" by simp_all
  from set_sc_mode_eff[OF this] show ?thesis
    by (simp add: sc_config_def)
qed

theorem set_sc_mode_four_writes_witness:
  "(0::int) \<in> {0, 1} \<and> (1::int) \<in> {0, 1} \<and> (0::int) \<le> 8 \<and> (8::int) < 16 \<and>
   (\<exists>s'. set_sc_mode 0 0 1 0 8 (world0 silent (\<lambda>_. True)) = Some (Inr True, s') \<and>
      wire s' = [Tx [0x0B, 0, 0xF5, 0xFF, 0xFF, 0xFF, 0, 0x5A, 0xA5, 0, 0],
                 Tx [0x0B, 0, 0xF5, 0xFF, 0xFF, 0xFF, 0, 0x5A, 0xA5, 0, 0],
                 Tx [0x0B, 0, 0xF5, 0xFF, 0xFF, 0xFF, 0, 0x84, 0, 0, 0],
                 Tx [0x0B, 0, 0xF5, 0xFF, 0xFF, 0xFF, 0, 0x84, 0, 0, 0]])"
proof -
  have h: "(0::int) \<in> {0, 1}" "(1::int) \<in> {0, 1}" "(0::int) \<le> 8" "(8::int) < 16" by simp_all
  from set_sc_mode_four_writes[OF h(1) h(1) h(2) h(1) h(3) h(4), of "world0 silent (\<lambda>_. True)"] h
  show ?thesis
    by (auto simp add: push_bit_eq_mult spec_writeRom_def spec_frame_def le16_def le32_def)
qed

section \<open>C7: Flash mapping set\<close>

text \<open>
  Claim C7. Flash-mapping set with a mapping of length 8 (of 16-bit entries, as every
  value written by \<open>writeRom\<close> is) makes exactly 32 \<open>writeRom\<close> writes to the magic word
  address, in the order 0xA558, 0xA558, \<open>mapping[i]\<close>, \<open>mapping[i]\<close> for \<open>i = 0..7\<close>; with a
  mapping of any other length it raises \<open>ValueError\<close> and leaves the world as it was: no
  write, no read.
\<close>

theorem set_flashmapping_writes:
  "(length mapping = 8 \<and> list_all (\<lambda>e. 0 \<le> e \<and> e < 65536) mapping \<longrightarrow>
      (\<exists>s'. set_flashmapping mapping s = Some (Inr True, s') \<and>
         wire s' = wire s @ spec_mapping_writes mapping \<and>
         length (spec_mapping_writes mapping) = 32 \<and>
         reads s' = reads s + 32)) \<and>
   (length mapping \<noteq> 8 \<longrightarrow> set_flashmapping mapping s = Some (Inl ValueError, s))"
  by (auto simp: set_flashmapping_eff mapping_quads_spec)
     (simp add: set_flashmapping_def raise_def)

theorem set_flashmapping_writes_witness:
  "length [8, 9, 10, 11, 12, 13, 14, 15 :: int] = 8 \<and>
   list_all (\<lambda>e. 0 \<le> e \<and> e < 65536) [8, 9, 10, 11, 12, 13, 14, 15 :: int] \<and>
   (\<exists>s'. set_flashmapping [8, 9, 10, 11, 12, 13, 14, 15] (world0 silent (\<lambda>_. True)) = Some (Inr True, s') \<and>
      wire s' = spec_mapping_writes [8, 9, 10, 11, 12, 13, 14, 15] \<and>
      length (wire s') = 32 \<and>
      wire s' ! 2 = Tx [0x0B, 0, 0xF5, 0xFF, 0xFF, 0xFF, 0, 8, 0, 0, 0] \<and>
      wire s' ! 31 = Tx [0x0B, 0, 0xF5, 0xFF, 0xFF, 0xFF, 0, 15, 0, 0, 0]) \<and>
   length [0, 1, 2 :: int] \<noteq> 8 \<and>
   set_flashmapping [0, 1, 2] (world0 silent (\<lambda>_. True)) =
     Some (Inl ValueError, world0 silent (\<lambda>_. True))"
proof -
  let ?w = "world0 silent (\<lambda>_. True)"
  let ?m = "[8, 9, 10, 11, 12, 13, 14, 15 :: int]"
  have h: "length ?m = 8 \<and> list_all (\<lambda>e. 0 \<le> e \<and> e < 65536) ?m" by simp
  have h2: "length [0, 1, 2 :: int] \<noteq> 8" by simp
  have q: "spec_mapping_writes ?m ! 2 = Tx [0x0B, 0, 0xF5, 0xFF, 0xFF, 0xFF, 0, 8, 0, 0, 0]"
    "spec_mapping_writes ?m ! 31 = Tx [0x0B, 0, 0xF5, 0xFF, 0xFF, 0xFF, 0, 15, 0, 0, 0]"
    by (simp_all add: mapping_quads_spec mapping_quads_def spec_writeRom_def spec_frame_def
          le16_def le32_def)
  from set_flashmapping_writes[of ?m ?w] h obtain s' where
    "set_flashmapping ?m ?w = Some (Inr True, s')" "wire s' = wire ?w @ spec_mapping_writes ?m"
    "length (spec_mapping_writes ?m) = 32" by blast
  moreover from set_flashmapping_writes[of "[0, 1, 2]" ?w] h2
  have "set_flashmapping [0, 1, 2] ?w = Some (Inl ValueError, ?w)" by blast
  ultimately show ?thesis using h h2 q by simp
qed

section \<open>C8: erase one sector\<close>

lemma polled_word_sent [simp]: "polled_word (sent as n s) k = polled_word s k"
  by (simp add: polled_word_def)

lemma two_reads: "Suc (Suc 0) = 2"
  by simp

lemma sleep_ms_eff: "sleep_ms ms s = Some (Inr (), sent [Sleep ms] 0 s)"
  by (simp add: sleep_ms_def sent_def)

lemma eraseSector_poll_eff:
  assumes "0 \<le> A" "A < 2147483648"
  shows "eraseSector_poll A s =
     (case polled_word s (reads s) of
        Inl e \<Rightarrow> Some (Inl e, sent [Tx (spec_readRom A 2)] 1 s)
      | Inr v \<Rightarrow> if v = 0xffff then Some (Inr True, sent [Tx (spec_readRom A 2)] 1 s)
                 else Some (Inr False, sent [Tx (spec_readRom A 2), Sleep 100] 1 s))"
  using assms
  by (simp add: eraseSector_poll_def bnd_def thn_def readRom_eff lift_cases polled_word_def
        ret_def sleep_ms_def sent_def split: sum.splits)

lemma eraseSector_rounds_busy:
  assumes "0 \<le> A" "A < 2147483648"
  shows "\<forall>k<n. \<exists>v. polled_word s (reads s + k) = Inr v \<and> v \<noteq> 0xffff \<Longrightarrow>
     rounds (eraseSector_poll A) n s =
       Some (sent (concat (replicate n [Tx (spec_readRom A 2), Sleep 100])) n s)"
proof (induction n arbitrary: s)
  case 0
  then show ?case by simp
next
  case (Suc n)
  from Suc.prems obtain v where v: "polled_word s (reads s) = Inr v" "v \<noteq> 0xffff"
    by (metis add.right_neutral zero_less_Suc)
  have "\<forall>k<n. \<exists>v. polled_word (sent [Tx (spec_readRom A 2), Sleep 100] 1 s)
          (reads (sent [Tx (spec_readRom A 2), Sleep 100] 1 s) + k) = Inr v \<and> v \<noteq> 0xffff"
    using Suc.prems by auto
  from Suc.IH[OF this] show ?case
    by (simp add: eraseSector_poll_eff[OF assms, of s] v)
qed

lemma eraseSector_rounds_Some:
  assumes "0 \<le> A" "A < 2147483648"
  shows "rounds (eraseSector_poll A) n s = Some s1 \<Longrightarrow>
     (\<forall>k<n. \<exists>v. polled_word s (reads s + k) = Inr v \<and> v \<noteq> 0xffff) \<and>
     s1 = sent (concat (replicate n [Tx (spec_readRom A 2), Sleep 100])) n s"
proof (induction n arbitrary: s)
  case 0
  then show ?case by simp
next
  case (Suc n)
  let ?s = "sent [Tx (spec_readRom A 2), Sleep 100] 1 s"
  from Suc.prems obtain v where v: "polled_word s (reads s) = Inr v" "v \<noteq> 0xffff"
    and r: "rounds (eraseSector_poll A) n ?s = Some s1"
    by (auto simp: eraseSector_poll_eff[OF assms, of s] split: sum.splits if_splits)
  from Suc.IH[OF r] have
    b: "\<forall>k<n. \<exists>v. polled_word s (Suc (reads s + k)) = Inr v \<and> v \<noteq> 0xffff"
    and s1: "s1 = sent (concat (replicate n [Tx (spec_readRom A 2), Sleep 100])) n ?s"
    by simp_all
  have "\<exists>v. polled_word s (reads s + k) = Inr v \<and> v \<noteq> 0xffff" if "k < Suc n" for k
  proof (cases k)
    case 0
    with v show ?thesis by simp
  next
    case (Suc j)
    with that b show ?thesis by simp
  qed
  with s1 show ?case by simp
qed

lemma writeRom_out_of_range:
  "a < 0 \<or> 4294967296 \<le> a \<Longrightarrow> writeRom a (PInt v) s = Some (Inl StructError, s)"
  by (auto simp: writeRom_def writeRom_cmd_def ebind_def pack_H_def pack_I_def bnd_def
        lift_cases split: sum.splits)

lemma readRom_out_of_range:
  "a < 0 \<or> 2147483648 \<le> a \<Longrightarrow> readRom a n s = Some (Inl StructError, s)"
  by (auto simp: readRom_def readRom_cmd_def ebind_def pack_H_def pack_I_def bnd_def
        lift_cases push_bit_eq_mult split: sum.splits)

lemma eraseSector_prefix:
  assumes "0 \<le> A" "A < 4294967296"
  shows "eraseSector A sz s =
     thn (while_True (eraseSector_poll A)) (ret True)
       (sent (spec_erase_sector_writes A @ [Sleep 10]) 6 s)"
  using assms
  by (simp add: eraseSector_def thn_def bnd_def writeRom_PInt sleep_ms_eff
        spec_erase_sector_writes_def two_reads)

lemma eraseSector_success_range:
  assumes "eraseSector A sz s = Some (Inr r, s')"
  shows "0 \<le> A \<and> A < 2147483648"
proof (rule ccontr)
  assume "\<not> (0 \<le> A \<and> A < 2147483648)"
  then consider "A < 0 \<or> 4294967296 \<le> A" | "0 \<le> A" "A < 4294967296" "2147483648 \<le> A"
    by linarith
  then show False
  proof cases
    case 1
    then have "eraseSector A sz s = Some (Inl StructError, sent
        [Tx (spec_writeRom 0x555 0xAA), Tx (spec_writeRom 0x2AA 0x55), Tx (spec_writeRom 0x555 0x80),
         Tx (spec_writeRom 0x555 0xAA), Tx (spec_writeRom 0x2AA 0x55)] 5 s)"
      by (simp add: eraseSector_def thn_def bnd_def writeRom_PInt writeRom_out_of_range two_reads)
    with assms show False by simp
  next
    case 2
    let ?s = "sent (spec_erase_sector_writes A @ [Sleep 10]) 6 s"
    have "eraseSector_poll A ?s = Some (Inl StructError, ?s)"
      using 2 by (simp add: eraseSector_poll_def bnd_def readRom_out_of_range)
    then have "while_True (eraseSector_poll A) ?s = Some (Inl StructError, ?s)"
      by (subst while_True.simps) simp
    then have "eraseSector A sz s = Some (Inl StructError, ?s)"
      using 2 by (simp add: eraseSector_prefix thn_def bnd_def)
    with assms show False by simp
  qed
qed

lemma eraseSector_returns:
  assumes "0 \<le> A" "A < 2147483648"
    and "\<forall>k<n. \<exists>v. polled_word s (reads s + 6 + k) = Inr v \<and> v \<noteq> 0xffff"
    and "polled_word s (reads s + 6 + n) = Inr 0xffff"
  shows "eraseSector A sz s =
     Some (Inr True, sent (spec_erase_sector_writes A @ [Sleep 10] @ spec_erase_polls A n) (7 + n) s)"
proof -
  let ?s = "sent (spec_erase_sector_writes A @ [Sleep 10]) 6 s"
  let ?s1 = "sent (concat (replicate n [Tx (spec_readRom A 2), Sleep 100])) n ?s"
  have "\<forall>k<n. \<exists>v. polled_word ?s (reads ?s + k) = Inr v \<and> v \<noteq> 0xffff"
    using assms(3) by simp
  from eraseSector_rounds_busy[OF assms(1,2) this]
  have r: "rounds (eraseSector_poll A) n ?s = Some ?s1" .
  have "eraseSector_poll A ?s1 = Some (Inr True, sent [Tx (spec_readRom A 2)] 1 ?s1)"
    using assms(4) by (simp add: eraseSector_poll_eff[OF assms(1,2)] ac_simps)
  from while_True_left[OF r this] show ?thesis
    using assms(1,2) by (simp add: eraseSector_prefix thn_def bnd_def ret_def spec_erase_polls_def)
qed

lemma eraseSector_success:
  assumes "eraseSector A sz s = Some (Inr r, s')"
  shows "r \<and> (\<exists>n. (\<forall>k<n. \<exists>v. polled_word s (reads s + 6 + k) = Inr v \<and> v \<noteq> 0xffff) \<and>
     polled_word s (reads s + 6 + n) = Inr 0xffff \<and>
     s' = sent (spec_erase_sector_writes A @ [Sleep 10] @ spec_erase_polls A n) (7 + n) s)"
proof -
  from eraseSector_success_range[OF assms] have A: "0 \<le> A" "A < 2147483648" by simp_all
  let ?s = "sent (spec_erase_sector_writes A @ [Sleep 10]) 6 s"
  from assms A have "thn (while_True (eraseSector_poll A)) (ret True) ?s = Some (Inr r, s')"
    by (simp add: eraseSector_prefix)
  then obtain x where w: "while_True (eraseSector_poll A) ?s = Some (Inr x, s')" and r: "r"
    by (auto elim!: thn_SomeE simp: ret_def)
  from while_True_Some[OF w] obtain n s1 where
    rs: "rounds (eraseSector_poll A) n ?s = Some s1" and
    last: "eraseSector_poll A s1 = Some (Inr True, s')"
    by auto
  from eraseSector_rounds_Some[OF A rs] have
    busy: "\<forall>k<n. \<exists>v. polled_word s (reads s + 6 + k) = Inr v \<and> v \<noteq> 0xffff"
    and s1: "s1 = sent (concat (replicate n [Tx (spec_readRom A 2), Sleep 100])) n ?s"
    by simp_all
  from last have "polled_word s (reads s + 6 + n) = Inr 0xffff \<and>
      s' = sent [Tx (spec_readRom A 2)] 1 s1"
    unfolding s1
    by (auto simp: eraseSector_poll_eff[OF A] ac_simps split: sum.splits if_splits)
  with busy s1 r show ?thesis
    by (auto simp: spec_erase_polls_def intro!: exI[of _ n])
qed

text \<open>
  Claim C8. For every word address \<open>A\<close>, a call of erase-one-sector that returns has
  written, in this order, 0xAA to word 0x555, 0x55 to word 0x2AA, 0x80 to word 0x555, 0xAA
  to word 0x555, 0x55 to word 0x2AA and 0x30 to word \<open>A\<close>, has then slept 10 ms and polled
  word \<open>A\<close> (reading two bytes) with a sleep of 100 ms between two polls, and returns
  success only after a poll that read 0xFFFF, all polls before it having read another
  value. And it does return success as soon as the device answers a poll with 0xFFFF
  (after two-byte answers to the polls before), for an address that fits the frame.
\<close>

theorem eraseSector_sequence:
  "(eraseSector A sz s = Some (Inr r, s') \<longrightarrow>
      r \<and> (\<exists>n. wire s' = wire s @ spec_erase_sector_writes A @ [Sleep 10] @ spec_erase_polls A n \<and>
             reads s' = reads s + 7 + n \<and>
             (\<forall>k<n. \<exists>v. polled_word s (reads s + 6 + k) = Inr v \<and> v \<noteq> 0xFFFF) \<and>
             polled_word s (reads s + 6 + n) = Inr 0xFFFF)) \<and>
   (0 \<le> A \<and> A < 2147483648 \<and>
    (\<forall>k<m. \<exists>v. polled_word s (reads s + 6 + k) = Inr v \<and> v \<noteq> 0xFFFF) \<and>
    polled_word s (reads s + 6 + m) = Inr 0xFFFF \<longrightarrow>
      (\<exists>s''. eraseSector A sz s = Some (Inr True, s'')))"
proof (rule conjI; rule impI)
  assume "eraseSector A sz s = Some (Inr r, s')"
  from eraseSector_success[OF this]
  show "r \<and> (\<exists>n. wire s' = wire s @ spec_erase_sector_writes A @ [Sleep 10] @ spec_erase_polls A n \<and>
             reads s' = reads s + 7 + n \<and>
             (\<forall>k<n. \<exists>v. polled_word s (reads s + 6 + k) = Inr v \<and> v \<noteq> 0xFFFF) \<and>
             polled_word s (reads s + 6 + n) = Inr 0xFFFF)"
  proof (elim conjE exE)
    fix n
    assume r: r
      and busy: "\<forall>k<n. \<exists>v. polled_word s (reads s + 6 + k) = Inr v \<and> v \<noteq> 0xffff"
      and fin: "polled_word s (reads s + 6 + n) = Inr 0xffff"
      and s': "s' = sent (spec_erase_sector_writes A @ [Sleep 10] @ spec_erase_polls A n) (7 + n) s"
    from s' have "wire s' = wire s @ spec_erase_sector_writes A @ [Sleep 10] @ spec_erase_polls A n"
      "reads s' = reads s + 7 + n" by simp_all
    with r busy fin show ?thesis by blast
  qed
next
  assume "0 \<le> A \<and> A < 2147483648 \<and>
    (\<forall>k<m. \<exists>v. polled_word s (reads s + 6 + k) = Inr v \<and> v \<noteq> 0xFFFF) \<and>
    polled_word s (reads s + 6 + m) = Inr 0xFFFF"
  then show "\<exists>s''. eraseSector A sz s = Some (Inr True, s'')"
    using eraseSector_returns[of A m s sz] by simp
qed

theorem eraseSector_sequence_witness:
  "polled_word (world0 busy_once (\<lambda>_. True)) 6 = Inr 0x1234 \<and>
   polled_word (world0 busy_once (\<lambda>_. True)) 7 = Inr 0xFFFF \<and>
   (\<exists>s'. eraseSector 0x10000 0x10000 (world0 busy_once (\<lambda>_. True)) = Some (Inr True, s') \<and>
      reads s' = 8 \<and>
      wire s' =
        [Tx [0x0B, 0, 0xF5, 0x55, 0x05, 0, 0, 0xAA, 0, 0, 0],
         Tx [0x0B, 0, 0xF5, 0xAA, 0x02, 0, 0, 0x55, 0, 0, 0],
         Tx [0x0B, 0, 0xF5, 0x55, 0x05, 0, 0, 0x80, 0, 0, 0],
         Tx [0x0B, 0, 0xF5, 0x55, 0x05, 0, 0, 0xAA, 0, 0, 0],
         Tx [0x0B, 0, 0xF5, 0xAA, 0x02, 0, 0, 0x55, 0, 0, 0],
         Tx [0x0B, 0, 0xF5, 0x00, 0x00, 0x01, 0, 0x30, 0, 0, 0],
         Sleep 10,
         Tx [0x0B, 0, 0xF6, 0x00, 0x00, 0x02, 0, 0x02, 0, 0, 0],
         Sleep 100,
         Tx [0x0B, 0, 0xF6, 0x00, 0x00, 0x02, 0, 0x02, 0, 0, 0]])"
proof -
  let ?w = "world0 busy_once (\<lambda>_. True)"
  have p6: "polled_word ?w 6 = Inr 0x1234" and p7: "polled_word ?w 7 = Inr 0xFFFF"
    by (simp_all add: polled_word_def busy_once_def answering_def unpack_H_def)
  have hyp: "(0::int) \<le> 0x10000 \<and> (0x10000::int) < 2147483648 \<and>
    (\<forall>k<1. \<exists>v. polled_word ?w (reads ?w + 6 + k) = Inr v \<and> v \<noteq> 0xFFFF) \<and>
    polled_word ?w (reads ?w + 6 + 1) = Inr 0xFFFF"
    using p6 p7 by simp
  from eraseSector_sequence[of "0x10000" "0x10000" ?w _ _ 1] hyp
  obtain s' where run: "eraseSector 0x10000 0x10000 ?w = Some (Inr True, s')" by blast
  from eraseSector_sequence[of "0x10000" "0x10000" ?w True s' 1] run
  obtain n where n: "wire s' = wire ?w @ spec_erase_sector_writes 0x10000 @ [Sleep 10] @ spec_erase_polls 0x10000 n"
    "reads s' = reads ?w + 7 + n"
    "\<forall>k<n. \<exists>v. polled_word ?w (reads ?w + 6 + k) = Inr v \<and> v \<noteq> 0xFFFF"
    "polled_word ?w (reads ?w + 6 + n) = Inr 0xFFFF" by blast
  have "n = 1"
  proof (rule ccontr)
    assume "n \<noteq> 1"
    then consider "n = 0" | "1 < n" by linarith
    then show False
    proof cases
      case 1
      with n(4) p6 show False by simp
    next
      case 2
      with n(3) have "\<exists>v. polled_word ?w (reads ?w + 6 + 1) = Inr v \<and> v \<noteq> 0xFFFF" by blast
      with p7 show False by simp
    qed
  qed
  with n(1,2) run p6 p7 show ?thesis
    by (simp add: spec_erase_sector_writes_def spec_erase_polls_def spec_writeRom_def
          spec_readRom_def spec_frame_def le16_def le32_def)
qed

section \<open>C10: a quality check with nothing to do\<close>

lemma emit_eff: "emit sg s = Some (Inr (), s\<lparr>signals := signals s @ [sg (port_name s)]\<rparr>)"
  by (simp add: emit_def)

lemma test_count_zero:
  "test_count_of config = 0 \<longleftrightarrow>
     \<not> enable_sram_test config \<and> \<not> enable_flash_erase config \<and> \<not> enable_ppb_unlock config \<and>
     \<not> enable_fast_flash config \<and> \<not> enable_full_sram config \<and> \<not> enable_ram_flash config"
  by (auto simp: test_count_of_def of_bool_def)

text \<open>
  Claim C10. When every flag of the quality-check configuration is disabled (the count of
  enabled steps is zero), the quality check logs that nothing is enabled, emits
  \<open>Finished{ok = false}\<close> for its port and returns without a serial write or read (and
  without reading its running flag).
\<close>

theorem qa_nothing_enabled:
  assumes "\<not> enable_sram_test config" "\<not> enable_flash_erase config" "\<not> enable_ppb_unlock config"
    "\<not> enable_fast_flash config" "\<not> enable_full_sram config" "\<not> enable_ram_flash config"
  shows "test_count_of config = 0 \<and>
    (\<exists>s'. QualityCheckWorker_run config s = Some (Inr (), s') \<and>
       signals s' = signals s @ [Log (port_name s) (Qa QaStarted),
                                Log (port_name s) (Qa QaNoTestEnabled),
                                Finished (port_name s) False] \<and>
       wire s' = wire s \<and> reads s' = reads s \<and> polls s' = polls s)"
proof -
  have z: "test_count_of config = 0" using assms by (simp add: test_count_zero)
  show ?thesis
    by (simp add: z QualityCheckWorker_run_def try_except_def thn_def bnd_def log_signal_def
          finished_signal_def emit_eff ret_def)
qed

theorem qa_nothing_enabled_witness:
  "\<not> enable_sram_test all_disabled \<and> \<not> enable_flash_erase all_disabled \<and>
   \<not> enable_ppb_unlock all_disabled \<and> \<not> enable_fast_flash all_disabled \<and>
   \<not> enable_full_sram all_disabled \<and> \<not> enable_ram_flash all_disabled \<and>
   (\<exists>s'. QualityCheckWorker_run all_disabled (world0 silent (\<lambda>_. True)) = Some (Inr (), s') \<and>
      signals s' = [Log ''COM3'' (Qa QaStarted), Log ''COM3'' (Qa QaNoTestEnabled),
                    Finished ''COM3'' False] \<and>
      wire s' = [] \<and> reads s' = 0)"
proof -
  have h: "\<not> enable_sram_test all_disabled" "\<not> enable_flash_erase all_disabled"
    "\<not> enable_ppb_unlock all_disabled" "\<not> enable_fast_flash all_disabled"
    "\<not> enable_full_sram all_disabled" "\<not> enable_ram_flash all_disabled"
    by (simp_all add: all_disabled_def)
  from qa_nothing_enabled[OF h, of "world0 silent (\<lambda>_. True)"] h show ?thesis
    by auto
qed

section \<open>C2: a cancelled quality check\<close>

lemma qa_step_cancelled:
  "\<not> running s (polls s) \<Longrightarrow>
   qa_step enabled step ct s = Some (Inr ct, s\<lparr>polls := polls s + (if enabled then 1 else 0)\<rparr>)"
  by (simp add: qa_step_def bnd_def self_running_def ret_def)

text \<open>
  Claim C2 says that a plan whose running flag is cleared before it completes stops at its
  next poll of the flag and emits \<open>Finished{ok = false}\<close>, never \<open>ok = true\<close>. The
  quality check does not: each step is guarded by \<open>flag and self.running\<close>, so with the
  flag cleared every enabled step is skipped, and the run falls through to its last three
  statements, which emit progress 100 and \<open>Finished{ok = true}\<close>. This holds for every
  configuration with a step enabled and every world in which the flag reads as cleared,
  and the run touches the device not at all.
\<close>

theorem qa_cancelled_reports_success:
  assumes "test_count_of config \<noteq> 0" and "\<forall>k. \<not> running s k"
  shows "\<exists>s'. QualityCheckWorker_run config s = Some (Inr (), s') \<and>
       signals s' = signals s @ [Log (port_name s) (Qa QaStarted),
                                Progress (port_name s) 100,
                                Log (port_name s) (Qa QaDone),
                                Finished (port_name s) True] \<and>
       wire s' = wire s \<and> reads s' = reads s"
  using assms
  by (simp add: QualityCheckWorker_run_def try_except_def thn_def bnd_def log_signal_def
        finished_signal_def progress_signal_def emit_eff ret_def qa_step_cancelled Let_def)

theorem qa_cancelled_reports_success_witness:
  "test_count_of default_config \<noteq> 0 \<and>
   (\<exists>s'. QualityCheckWorker_run default_config (world0 silent (\<lambda>_. False)) = Some (Inr (), s') \<and>
       signals s' = [Log ''COM3'' (Qa QaStarted), Progress ''COM3'' 100,
                     Log ''COM3'' (Qa QaDone), Finished ''COM3'' True] \<and>
       wire s' = [] \<and> reads s' = 0)"
proof -
  have h: "test_count_of default_config \<noteq> 0"
    by (simp add: test_count_of_def default_config_def)
  have r: "\<forall>k. \<not> running (world0 silent (\<lambda>_. False)) k" by simp
  from qa_cancelled_reports_success[OF h r] h show ?thesis by auto
qed

section \<open>The effects of the plans, step by step\<close>

lemma adv_adv [simp]:
  "adv as n sg p out (adv bs m tg q out' s) = adv (bs @ as) (m + n) (tg @ sg) (q + p) (out' @ out) s"
  by (simp add: adv_def)

lemma adv_fields [simp]:
  "wire (adv as n sg p out s) = wire s @ as" "reads (adv as n sg p out s) = reads s + n"
  "signals (adv as n sg p out s) = signals s @ sg" "polls (adv as n sg p out s) = polls s + p"
  "sink (adv as n sg p out s) = sink s @ out"
  "dev (adv as n sg p out s) = dev s" "running (adv as n sg p out s) = running s"
  "port_name (adv as n sg p out s) = port_name s" "rng (adv as n sg p out s) = rng s"
  by (simp_all add: adv_def)

lemma sent_adv: "sent as n s = adv as n [] 0 [] s"
  by (simp add: sent_def adv_def)

lemma two_polls: "Suc (Suc 0) = 2"
  by simp

lemma emit_adv: "emit sg s = Some (Inr (), adv [] 0 [sg (port_name s)] 0 [] s)"
  by (simp add: emit_def adv_def)

lemma self_running_adv: "self_running s = Some (Inr (running s (polls s)), adv [] 0 [] 1 [] s)"
  by (simp add: self_running_def adv_def)

lemma file_write_adv: "file_write data s = Some (Inr (), adv [] 0 [] 0 data s)"
  by (simp add: file_write_def adv_def)

lemma polled_word_adv [simp]: "polled_word (adv as n sg p out s) k = polled_word s k"
  by (simp add: polled_word_def)

lemma programRom_eff:
  "0 \<le> a \<Longrightarrow> a < 4294967296 \<Longrightarrow> 0 \<le> b \<Longrightarrow> b < 65536 \<Longrightarrow> length d < 65525 \<Longrightarrow>
   programRom a (PBytes d) (Some b) s =
     Some (Inr (take 1 (dev s (reads s)) = [0xaa]), sent [Tx (spec_programRom a b d)] 1 s)"
  by (simp add: programRom_def programRom_cmd_def ebind_def pack_H_def pack_I_def bnd_def thn_def
        lift_def ret_def ser_write_def ser_read_def sent_def spec_programRom_def spec_frame_def
        le16_def le32_def)

lemma call_eff: "call m s = (case m s of None \<Rightarrow> None | Some (Inl e, s') \<Rightarrow> Some (Inl e, s')
   | Some (Inr x, s') \<Rightarrow> Some (Inr (), s'))"
  by (simp add: call_def bnd_def ret_def split: option.splits sum.splits)

lemma write_mode_eff:
  "set_sc_mode 0 0 1 0 8 s = Some (Inr True, sent (spec_mode_set_writes 0x84) 4 s)"
proof -
  have c: "sc_config 0 0 1 0 8 = 0x84" by (simp add: sc_config_def push_bit_eq_mult)
  show ?thesis using set_sc_mode_eff[of 0 0 1 0 8 s] by (simp add: c spec_mode_set_writes_def)
qed

lemma identity_mapping_eff:
  "set_flashmapping [0, 1, 2, 3, 4, 5, 6, 7] s =
     Some (Inr True, sent (mapping_quads [0, 1, 2, 3, 4, 5, 6, 7]) 32 s)"
  by (simp add: set_flashmapping_eff)

lemma parse_cfi_ranges:
  assumes "parse_cfi x = Inr c"
  shows "(cfi_sector_size c = 0 \<or> 256 \<le> cfi_sector_size c) \<and> 0 \<le> cfi_buffer_write_bytes c"
proof -
  from assms[unfolded parse_cfi_def ebind_Inr] obtain t3 t8 t9 :: int where
    "cfi_sector_size c = (push_bit 8 (t9 AND 0xff) OR (t8 AND 0xff)) * 256"
    "cfi_buffer_write_bytes c = (if t3 \<noteq> 0 then 2 ^ nat t3 else 0)"
    by force
  moreover have "0 \<le> push_bit 8 (t9 AND 0xff) OR (t8 AND 0xff)"
    by simp
  moreover have "k * 256 = 0 \<or> 256 \<le> k * 256" if "0 \<le> k" for k :: int
    using that by (cases "k = 0") auto
  ultimately show ?thesis by (metis power_eq_0_iff zero_le_numeral zero_le_power order_refl)
qed

lemma getRomCFI_adv:
  "getRomCFI s =
     Some (case parse_cfi (drop 2 (take 22 (dev s (Suc (reads s))))) of
             Inl e \<Rightarrow> Inl e | Inr c \<Rightarrow> Inr c,
           adv spec_cfi_query 3 [] 0 [] s)"
  by (simp add: getRomCFI_eff sent_adv spec_cfi_query_def)

lemma block_Nil: "block [] = ret ()" by simp

lemma block_Cons: "block (m # ms) s = (case m s of None \<Rightarrow> None | Some (Inl e, s') \<Rightarrow> Some (Inl e, s')
   | Some (Inr x, s') \<Rightarrow> block ms s')"
  by (simp add: thn_def bnd_def)

lemmas io_simps = thn_def bnd_def ret_def raise_def call_eff block_Cons log_signal_def
  progress_signal_def finished_signal_def emit_adv self_running_adv try_except_def lift_cases Let_def

text \<open>
  The progress values the theorems below meet, and two at which binary64 is one below the
  floor of the exact quotient.
\<close>

lemma int_scaled_1_1_50: "int_scaled 1 1 50 = 50"
  by code_simp

lemma int_scaled_2048_4_50: "int_scaled 2048 4 50 = 25600"
  by code_simp

lemma int_scaled_rounds_as_binary64:
  "int_scaled 29 50 50 = 28 \<and> (29 * 50) div 50 = (29 :: int) \<and>
   int_scaled 30408704 52428800 100 = 57 \<and> (30408704 * 100) div 52428800 = (58 :: int) \<and>
   true_div 29 50 = (5224175567749775, - 53)"
  by code_simp

lemma qa_progress_binary64:
  "list_all (\<lambda>test_count. list_all (\<lambda>current_test.
     progress_completed current_test test_count =
       int_of_float (float_times (true_div 100 test_count) current_test) \<and>
     progress_entering current_test test_count =
       int_of_float (float_times (case true_div 100 test_count of (m, e) \<Rightarrow> (m, e - 1))
                       (2 * current_test - 1)))
     [1..test_count]) [1..5]"
  by code_simp

lemma production_three_bytes:
  assumes R: "\<forall>k<4. running s (polls s + k)"
    and C: "parse_cfi (drop 2 (take 22 (dev s (reads s + 37)))) = Inr c"
    and SS: "cfi_sector_size c \<noteq> 0" and BW: "cfi_buffer_write_bytes c < 65536"
    and E: "\<forall>k<n. \<exists>v. polled_word s (reads s + 45 + k) = Inr v \<and> v \<noteq> 0xffff"
       "polled_word s (reads s + 45 + n) = Inr 0xffff"
    and P: "take 1 (dev s (reads s + 82 + n)) = [0xAA]"
    and V: "drop 2 (take 6 (dev s (reads s + 115 + n))) = [1, 2, 3, 0]"
  shows "ProductionWorker_run [1, 2, 3] s =
     Some (Inr (), adv (spec_three_byte_wire (cfi_buffer_write_bytes c) n) (116 + n)
                     (three_byte_signals (port_name s) (cfi_sector_size c) (cfi_buffer_write_bytes c))
                     4 [] s)"
proof -
  from parse_cfi_ranges[OF C] SS have ss: "256 \<le> cfi_sector_size c" and bw: "0 \<le> cfi_buffer_write_bytes c"
    by simp_all
  have C': "parse_cfi (drop 2 (take 22 (dev s (37 + reads s)))) = Inr c"
    using C by (simp add: add.commute)
  have q: "py_floordiv 3 (cfi_sector_size c) = Inr 0" using ss by (simp add: py_floordiv_def)
  have r: "running s (polls s)" "running s (Suc (polls s))" "running s (Suc (Suc (polls s)))"
    "running s (polls s + 3)"
    using R[rule_format, of 0] R[rule_format, of 1] R[rule_format, of 2] R[rule_format, of 3]
    by (simp_all add: numeral_eq_Suc)
  have P': "take 1 (dev s (reads s + (82 + n))) = [0xAA]"
    and V': "drop 2 (take 6 (dev s (reads s + (115 + n)))) = [1, 2, 3, 0]"
    using P V by (simp_all add: add.assoc)
  have e: "eraseSector 0 sw (adv A 39 G (Suc 0) [] s) =
      Some (Inr True, adv (A @ spec_erase_sector_writes 0 @ [Sleep 10] @ spec_erase_polls 0 n)
                        (46 + n) G (Suc 0) [] s)" for A G sw
    using eraseSector_returns[of 0 n "adv A 39 G (Suc 0) [] s" sw] E
    by (simp add: sent_adv ac_simps)
  show ?thesis
    using P' V'
    by (simp add: ProductionWorker_run_def io_simps write_mode_eff identity_mapping_eff sleep_ms_eff sent_adv
       getRomCFI_adv C' q py_range_def r switch_segment_def int_scaled_1_1_50
       int_scaled_2048_4_50 e
       py_slice_def programRom_eff bw BW two_polls readRom_eff
       spec_three_byte_wire_def three_byte_signals_def)
qed

lemma production_three_bytes_read_back:
  assumes R: "\<forall>k<4. running s (polls s + k)"
    and C: "parse_cfi (drop 2 (take 22 (dev s (reads s + 37)))) = Inr c"
    and SS: "cfi_sector_size c \<noteq> 0" and BW: "cfi_buffer_write_bytes c < 65536"
    and E: "\<forall>k<n. \<exists>v. polled_word s (reads s + 45 + k) = Inr v \<and> v \<noteq> 0xffff"
       "polled_word s (reads s + 45 + n) = Inr 0xffff"
    and P: "take 1 (dev s (reads s + 82 + n)) = [0xAA]"
    and V: "drop 2 (take 6 (dev s (reads s + 115 + n))) \<noteq> [1, 2, 3, 0]"
  shows "ProductionWorker_run [1, 2, 3] s =
     Some (Inr (), adv (spec_three_byte_wire (cfi_buffer_write_bytes c) n) (116 + n)
                     (three_byte_failed_signals (port_name s) (cfi_sector_size c)
                        (cfi_buffer_write_bytes c))
                     4 [] s)"
proof -
  from parse_cfi_ranges[OF C] SS have ss: "256 \<le> cfi_sector_size c" and bw: "0 \<le> cfi_buffer_write_bytes c"
    by simp_all
  have C': "parse_cfi (drop 2 (take 22 (dev s (37 + reads s)))) = Inr c"
    using C by (simp add: add.commute)
  have q: "py_floordiv 3 (cfi_sector_size c) = Inr 0" using ss by (simp add: py_floordiv_def)
  have r: "running s (polls s)" "running s (Suc (polls s))" "running s (Suc (Suc (polls s)))"
    "running s (polls s + 3)"
    using R[rule_format, of 0] R[rule_format, of 1] R[rule_format, of 2] R[rule_format, of 3]
    by (simp_all add: numeral_eq_Suc)
  have P': "take 1 (dev s (reads s + (82 + n))) = [0xAA]"
    and V': "drop 2 (take 6 (dev s (reads s + (115 + n)))) \<noteq> [1, 2, 3, 0]"
    using P V by (simp_all add: add.assoc)
  have e: "eraseSector 0 sw (adv A 39 G (Suc 0) [] s) =
      Some (Inr True, adv (A @ spec_erase_sector_writes 0 @ [Sleep 10] @ spec_erase_polls 0 n)
                        (46 + n) G (Suc 0) [] s)" for A G sw
    using eraseSector_returns[of 0 n "adv A 39 G (Suc 0) [] s" sw] E
    by (simp add: sent_adv ac_simps)
  show ?thesis
    using P' V'
    by (simp add: ProductionWorker_run_def io_simps write_mode_eff identity_mapping_eff sleep_ms_eff sent_adv
       getRomCFI_adv C' q py_range_def r switch_segment_def int_scaled_1_1_50
       int_scaled_2048_4_50 e
       py_slice_def programRom_eff bw BW two_polls readRom_eff
       spec_three_byte_wire_def three_byte_failed_signals_def)
qed

lemma parse_cfi_128MiB:
  "parse_cfi (drop 2 (take 22 cfi_128MiB)) =
     Inr \<lparr>cfi_device_size = 134217728, cfi_sector_count = 1024,
          cfi_sector_size = 131072, cfi_buffer_write_bytes = 512\<rparr>"
  by (simp add: parse_cfi_def cfi_128MiB_def py_slice_def ebind_def unpack_H_def)

lemma filter_concat_replicate:
  "filter P (concat (replicate n xs)) = concat (replicate n (filter P xs))"
  by (induction n) simp_all

lemma opcode_is_frame [simp]:
  "opcode_is opc (Tx (spec_frame opc' body)) = (opc' = opc)"
  "opcode_is opc (Sleep ms) = False"
  by (auto simp: opcode_is_def spec_frame_def le16_def)

lemma writes_value_simps [simp]:
  "writes_value v (Tx (spec_writeRom a w)) = (le16 w = le16 v)"
  "writes_value v (Tx (spec_readRom a k)) = False"
  "writes_value v (Tx (spec_programRom a b d)) = False"
  "writes_value v (Sleep ms) = False"
  by (auto simp: writes_value_def spec_writeRom_def spec_readRom_def spec_programRom_def
        spec_frame_def le16_def le32_def)

lemma three_byte_wire_programs:
  "filter (opcode_is 0xF4) (spec_three_byte_wire bwb n) =
     [Tx (spec_programRom 0 bwb ([0x01, 0x02, 0x03, 0x00] @ replicate 2044 0xFF))]"
  by (simp add: spec_three_byte_wire_def spec_mode_set_writes_def mapping_quads_def
        spec_cfi_query_def spec_erase_sector_writes_def spec_erase_polls_def
        filter_concat_replicate spec_writeRom_def spec_readRom_def spec_programRom_def)

lemma three_byte_wire_erases:
  "filter (writes_value 0x30) (spec_three_byte_wire bwb n) = [Tx (spec_writeRom 0 0x30)]"
  by (simp add: spec_three_byte_wire_def spec_mode_set_writes_def mapping_quads_def
        spec_cfi_query_def spec_erase_sector_writes_def spec_erase_polls_def
        filter_concat_replicate le16_def)

section \<open>C9: production of a three-byte image\<close>

text \<open>
  Claim C9. A production run with the 3-byte image \<open>{0x01, 0x02, 0x03}\<close>, on a device that
  answers the CFI query with a geometry (a sector size other than 0, a write buffer below
  64 KiB), reports the sector erased after some polls and acknowledges the program with
  0xAA, and with the running flag set at its four polls, whatever the device returns on
  read-back: the image is padded with 0x00 to \<open>{0x01, 0x02, 0x03, 0x00}\<close>; exactly one
  sector erase is issued (at word 0); exactly one buffered program (opcode 0xF4) is
  issued, of 2048 bytes, the four of the padded image followed by 0xFF at the offsets
  4..2047; the verify phase reads back exactly 4 bytes (at word 0) and compares them to
  the padded image: the run ends with \<open>Finished{ok = true}\<close> if and only if the four bytes
  read are \<open>{0x01, 0x02, 0x03, 0x00}\<close>; on any other read-back it logs the failed
  verification at address 0 and ends with \<open>Finished{ok = false}\<close>.
\<close>

theorem production_of_three_bytes:
  assumes "\<forall>k<4. running s (polls s + k)"
    and "parse_cfi (drop 2 (take 22 (dev s (reads s + 37)))) = Inr c"
    and "cfi_sector_size c \<noteq> 0" and "cfi_buffer_write_bytes c < 65536"
    and "\<forall>k<n. \<exists>v. polled_word s (reads s + 45 + k) = Inr v \<and> v \<noteq> 0xFFFF"
    and "polled_word s (reads s + 45 + n) = Inr 0xFFFF"
    and "take 1 (dev s (reads s + 82 + n)) = [0xAA]"
  shows "\<exists>s'. ProductionWorker_run [0x01, 0x02, 0x03] s = Some (Inr (), s') \<and>
     wire s' = wire s @ spec_three_byte_wire (cfi_buffer_write_bytes c) n \<and>
     filter (writes_value 0x30) (spec_three_byte_wire (cfi_buffer_write_bytes c) n) =
       [Tx (spec_writeRom 0 0x30)] \<and>
     filter (opcode_is 0xF4) (spec_three_byte_wire (cfi_buffer_write_bytes c) n) =
       [Tx (spec_programRom 0 (cfi_buffer_write_bytes c)
              ([0x01, 0x02, 0x03, 0x00] @ replicate 2044 0xFF))] \<and>
     length ([0x01, 0x02, 0x03, 0x00 :: byte] @ replicate 2044 0xFF) = 2048 \<and>
     last (spec_three_byte_wire (cfi_buffer_write_bytes c) n) = Tx (spec_readRom 0 4) \<and>
     reads s' = reads s + 116 + n \<and>
     signals s' = signals s @
       (if drop 2 (take 6 (dev s (reads s + 115 + n))) = [0x01, 0x02, 0x03, 0x00]
        then three_byte_signals (port_name s) (cfi_sector_size c) (cfi_buffer_write_bytes c)
        else three_byte_failed_signals (port_name s) (cfi_sector_size c)
               (cfi_buffer_write_bytes c)) \<and>
     last (signals s') =
       Finished (port_name s)
         (drop 2 (take 6 (dev s (reads s + 115 + n))) = [0x01, 0x02, 0x03, 0x00]) \<and>
     (Log (port_name s) (Prod (ProdFailed (Failure (VerifyFailed 0))))
        \<in> set (drop (length (signals s)) (signals s'))) =
       (drop 2 (take 6 (dev s (reads s + 115 + n))) \<noteq> [0x01, 0x02, 0x03, 0x00])"
proof (cases "drop 2 (take 6 (dev s (reads s + 115 + n))) = [0x01, 0x02, 0x03, 0x00]")
  case True
  from production_three_bytes[OF assms True] True show ?thesis
    by (simp add: three_byte_signals_def three_byte_wire_programs three_byte_wire_erases)
       (simp add: spec_three_byte_wire_def)
next
  case False
  from production_three_bytes_read_back[OF assms False] False show ?thesis
    by (simp add: three_byte_failed_signals_def three_byte_wire_programs three_byte_wire_erases)
       (simp add: spec_three_byte_wire_def)
qed

theorem production_of_three_bytes_witness:
  "running (world0 healthy_device (\<lambda>_. True)) 0 \<and>
   running (world0 healthy_device (\<lambda>_. True)) 1 \<and>
   running (world0 healthy_device (\<lambda>_. True)) 2 \<and>
   running (world0 healthy_device (\<lambda>_. True)) 3 \<and>
   parse_cfi (drop 2 (take 22 (dev (world0 healthy_device (\<lambda>_. True)) 37))) =
     Inr \<lparr>cfi_device_size = 134217728, cfi_sector_count = 1024,
          cfi_sector_size = 131072, cfi_buffer_write_bytes = 512\<rparr> \<and>
   polled_word (world0 healthy_device (\<lambda>_. True)) 45 = Inr 0xFFFF \<and>
   take 1 (dev (world0 healthy_device (\<lambda>_. True)) 82) = [0xAA] \<and>
   drop 2 (take 6 (dev (world0 healthy_device (\<lambda>_. True)) 115)) = [0x01, 0x02, 0x03, 0x00] \<and>
   (\<exists>s'. ProductionWorker_run [0x01, 0x02, 0x03] (world0 healthy_device (\<lambda>_. True)) = Some (Inr (), s') \<and>
      wire s' = spec_three_byte_wire 512 0 \<and>
      filter (opcode_is 0xF4) (wire s') =
        [Tx (spec_programRom 0 512 ([0x01, 0x02, 0x03, 0x00] @ replicate 2044 0xFF))] \<and>
      filter (writes_value 0x30) (wire s') = [Tx (spec_writeRom 0 0x30)] \<and>
      last (wire s') = Tx (spec_readRom 0 4) \<and>
      reads s' = 116 \<and>
      signals s' = three_byte_signals ''COM3'' 131072 512 \<and>
      last (signals s') = Finished ''COM3'' True) \<and>
   running (world0 stale_device (\<lambda>_. True)) 0 \<and>
   running (world0 stale_device (\<lambda>_. True)) 1 \<and>
   running (world0 stale_device (\<lambda>_. True)) 2 \<and>
   running (world0 stale_device (\<lambda>_. True)) 3 \<and>
   parse_cfi (drop 2 (take 22 (dev (world0 stale_device (\<lambda>_. True)) 37))) =
     Inr \<lparr>cfi_device_size = 134217728, cfi_sector_count = 1024,
          cfi_sector_size = 131072, cfi_buffer_write_bytes = 512\<rparr> \<and>
   polled_word (world0 stale_device (\<lambda>_. True)) 45 = Inr 0xFFFF \<and>
   take 1 (dev (world0 stale_device (\<lambda>_. True)) 82) = [0xAA] \<and>
   drop 2 (take 6 (dev (world0 stale_device (\<lambda>_. True)) 115)) = [0x01, 0x02, 0x03, 0xFF] \<and>
   (\<exists>s'. ProductionWorker_run [0x01, 0x02, 0x03] (world0 stale_device (\<lambda>_. True)) = Some (Inr (), s') \<and>
      wire s' = spec_three_byte_wire 512 0 \<and>
      last (wire s') = Tx (spec_readRom 0 4) \<and>
      reads s' = 116 \<and>
      signals s' = three_byte_failed_signals ''COM3'' 131072 512 \<and>
      Log ''COM3'' (Prod (ProdFailed (Failure (VerifyFailed 0)))) \<in> set (signals s') \<and>
      last (signals s') = Finished ''COM3'' False)"
proof -
  let ?c = "\<lparr>cfi_device_size = 134217728, cfi_sector_count = 1024,
          cfi_sector_size = 131072, cfi_buffer_write_bytes = 512\<rparr>"
  have S: "cfi_sector_size ?c \<noteq> 0" "cfi_buffer_write_bytes ?c < 65536" by simp_all
  let ?w = "world0 healthy_device (\<lambda>_. True)"
  have R: "\<forall>k<4. running ?w (polls ?w + k)" by simp
  have C: "parse_cfi (drop 2 (take 22 (dev ?w (reads ?w + 37)))) = Inr ?c"
    by (simp add: healthy_device_def answering_def parse_cfi_128MiB)
  have E: "\<forall>k<0. \<exists>v. polled_word ?w (reads ?w + 45 + k) = Inr v \<and> v \<noteq> 0xFFFF"
    "polled_word ?w (reads ?w + 45 + 0) = Inr 0xFFFF"
    by (simp_all add: polled_word_def healthy_device_def answering_def unpack_H_def)
  have P: "take 1 (dev ?w (reads ?w + 82 + 0)) = [0xAA]"
    by (simp add: healthy_device_def answering_def)
  have V: "drop 2 (take 6 (dev ?w (reads ?w + 115 + 0))) = [0x01, 0x02, 0x03, 0x00]"
    by (simp add: healthy_device_def answering_def)
  let ?v = "world0 stale_device (\<lambda>_. True)"
  have R': "\<forall>k<4. running ?v (polls ?v + k)" by simp
  have C': "parse_cfi (drop 2 (take 22 (dev ?v (reads ?v + 37)))) = Inr ?c"
    by (simp add: stale_device_def answering_def parse_cfi_128MiB)
  have E': "\<forall>k<0. \<exists>v. polled_word ?v (reads ?v + 45 + k) = Inr v \<and> v \<noteq> 0xFFFF"
    "polled_word ?v (reads ?v + 45 + 0) = Inr 0xFFFF"
    by (simp_all add: polled_word_def stale_device_def answering_def unpack_H_def)
  have P': "take 1 (dev ?v (reads ?v + 82 + 0)) = [0xAA]"
    by (simp add: stale_device_def answering_def)
  have V': "drop 2 (take 6 (dev ?v (reads ?v + 115 + 0))) = [0x01, 0x02, 0x03, 0xFF]"
    by (simp add: stale_device_def answering_def)
  have good: "\<exists>s'. ProductionWorker_run [0x01, 0x02, 0x03] ?w = Some (Inr (), s') \<and>
      wire s' = spec_three_byte_wire 512 0 \<and>
      filter (opcode_is 0xF4) (wire s') =
        [Tx (spec_programRom 0 512 ([0x01, 0x02, 0x03, 0x00] @ replicate 2044 0xFF))] \<and>
      filter (writes_value 0x30) (wire s') = [Tx (spec_writeRom 0 0x30)] \<and>
      last (wire s') = Tx (spec_readRom 0 4) \<and>
      reads s' = 116 \<and>
      signals s' = three_byte_signals ''COM3'' 131072 512 \<and>
      last (signals s') = Finished ''COM3'' True"
    using production_of_three_bytes[OF R C S E P] V by auto
  have bad: "\<exists>s'. ProductionWorker_run [0x01, 0x02, 0x03] ?v = Some (Inr (), s') \<and>
      wire s' = spec_three_byte_wire 512 0 \<and>
      last (wire s') = Tx (spec_readRom 0 4) \<and>
      reads s' = 116 \<and>
      signals s' = three_byte_failed_signals ''COM3'' 131072 512 \<and>
      Log ''COM3'' (Prod (ProdFailed (Failure (VerifyFailed 0)))) \<in> set (signals s') \<and>
      last (signals s') = Finished ''COM3'' False"
    using production_of_three_bytes[OF R' C' S E' P'] V' by auto
  from good bad R C E(2) P V R' C' E'(2) P' V' show ?thesis
    by simp
qed

section \<open>C3: progress values\<close>

text \<open>
  Claim C3 says that every progress value lies in \<open>[0, 100]\<close>, and in particular that the
  values \<open>50 + floor(written / |I| * 50)\<close> of the program phase never exceed 100. The
  program loop adds the whole chunk size, 2048, to \<open>written\<close> whatever is left of the
  image, so the last value is above 100 whenever the last chunk overshoots the image by
  2 percent of its length or more: for the 3-byte image (4 bytes after padding) the run
  emits \<open>50 + int(2048 / 4 * 50) = 25650\<close>, on the device of claim C9 when it returns the
  padded image on read-back.
\<close>

theorem production_progress_above_100:
  assumes "\<forall>k<4. running s (polls s + k)"
    and "parse_cfi (drop 2 (take 22 (dev s (reads s + 37)))) = Inr c"
    and "cfi_sector_size c \<noteq> 0" and "cfi_buffer_write_bytes c < 65536"
    and "\<forall>k<n. \<exists>v. polled_word s (reads s + 45 + k) = Inr v \<and> v \<noteq> 0xFFFF"
    and "polled_word s (reads s + 45 + n) = Inr 0xFFFF"
    and "take 1 (dev s (reads s + 82 + n)) = [0xAA]"
    and "drop 2 (take 6 (dev s (reads s + 115 + n))) = [0x01, 0x02, 0x03, 0x00]"
  shows "\<exists>s'. ProductionWorker_run [0x01, 0x02, 0x03] s = Some (Inr (), s') \<and>
     signals s' = signals s @
       three_byte_signals (port_name s) (cfi_sector_size c) (cfi_buffer_write_bytes c) \<and>
     three_byte_signals (port_name s) (cfi_sector_size c) (cfi_buffer_write_bytes c) ! 9 =
       Progress (port_name s) 25650"
  using production_three_bytes[OF assms] by (simp add: three_byte_signals_def)

theorem production_progress_above_100_witness:
  "\<exists>s'. ProductionWorker_run [0x01, 0x02, 0x03] (world0 healthy_device (\<lambda>_. True)) =
       Some (Inr (), s') \<and>
     signals s' =
       [Log ''COM3'' (Prod ProdStarted), Log ''COM3'' (Prod (ProdFileSize 3)),
        Log ''COM3'' (Prod ProdWriting), Log ''COM3'' (Prod (ProdGeometry 131072 512)),
        Log ''COM3'' (Prod (ProdErasing 1)), Progress ''COM3'' 50,
        Log ''COM3'' (Prod (ProdErased 1 1)), Log ''COM3'' (Prod ProdEraseDone),
        Log ''COM3'' (Prod (ProdWritten 2048 4 51200)), Progress ''COM3'' 25650,
        Log ''COM3'' (Prod ProdVerifying), Log ''COM3'' (Prod (ProdVerified 0 0)),
        Log ''COM3'' (Prod ProdDone), Progress ''COM3'' 100, Finished ''COM3'' True]"
proof -
  let ?w = "world0 healthy_device (\<lambda>_. True)"
  let ?c = "\<lparr>cfi_device_size = 134217728, cfi_sector_count = 1024,
          cfi_sector_size = 131072, cfi_buffer_write_bytes = 512\<rparr>"
  have R: "\<forall>k<4. running ?w (polls ?w + k)" by simp
  have C: "parse_cfi (drop 2 (take 22 (dev ?w (reads ?w + 37)))) = Inr ?c"
    by (simp add: healthy_device_def answering_def parse_cfi_128MiB)
  have S: "cfi_sector_size ?c \<noteq> 0" "cfi_buffer_write_bytes ?c < 65536" by simp_all
  have E: "\<forall>k<0. \<exists>v. polled_word ?w (reads ?w + 45 + k) = Inr v \<and> v \<noteq> 0xFFFF"
    "polled_word ?w (reads ?w + 45 + 0) = Inr 0xFFFF"
    by (simp_all add: polled_word_def healthy_device_def answering_def unpack_H_def)
  have P: "take 1 (dev ?w (reads ?w + 82 + 0)) = [0xAA]"
    by (simp add: healthy_device_def answering_def)
  have V: "drop 2 (take 6 (dev ?w (reads ?w + 115 + 0))) = [0x01, 0x02, 0x03, 0x00]"
    by (simp add: healthy_device_def answering_def)
  from production_progress_above_100[OF R C S E P V] show ?thesis
    by (auto simp: three_byte_signals_def)
qed

section \<open>C1: segments in the fast Flash check\<close>

lemma py_range_32:
  "py_range 32 = [0, 1, 2, 3, 4, 5, 6, 7, 8, 9, 10, 11, 12, 13, 14, 15, 16, 17, 18, 19, 20, 21,
     22, 23, 24, 25, 26, 27, 28, 29, 30, 31]"
  by code_simp

lemma upt_32:
  "[0..<32] = [0, 1, 2, 3, 4, 5, 6, 7, 8, 9, 10, 11, 12, 13, 14, 15, 16, 17, 18, 19, 20, 21,
     22, 23, 24, 25, 26, 27, 28, 29, 30, 31]"
  by code_simp

lemma eraseSector_ready:
  "0 \<le> A \<Longrightarrow> A < 2147483648 \<Longrightarrow> polled_word s (reads s + 6) = Inr 0xffff \<Longrightarrow>
   eraseSector A sz s =
     Some (Inr True, adv (spec_erase_sector_writes A @ [Sleep 10, Tx (spec_readRom A 2)]) 7 [] 0 [] s)"
  using eraseSector_returns[of A 0 s sz] by (simp add: sent_adv spec_erase_polls_def)

lemma eraseSector_timeout:
  "0 \<le> A \<Longrightarrow> A < 2147483648 \<Longrightarrow> polled_word s (reads s + 6) = Inl e \<Longrightarrow>
   eraseSector A sz s =
     Some (Inl e, adv (spec_erase_sector_writes A @ [Sleep 10, Tx (spec_readRom A 2)]) 7 [] 0 [] s)"
proof -
  assume A: "0 \<le> A" "A < 2147483648" and p: "polled_word s (reads s + 6) = Inl e"
  let ?s = "sent (spec_erase_sector_writes A @ [Sleep 10]) 6 s"
  have "eraseSector_poll A ?s = Some (Inl e, sent [Tx (spec_readRom A 2)] 1 ?s)"
    using p by (simp add: eraseSector_poll_eff[OF A])
  then have "while_True (eraseSector_poll A) ?s = Some (Inl e, sent [Tx (spec_readRom A 2)] 1 ?s)"
    by (subst while_True.simps) simp
  then show ?thesis using A by (simp add: eraseSector_prefix thn_def bnd_def sent_adv)
qed

lemma fast_qa_run:
  "QualityCheckWorker_run fast_flash_only (world0 first_window_device (\<lambda>_. True)) =
     Some (Inr (), adv (fast_qa_wire_before @
                        [Tx (spec_writeRom (drop_bit 1 (134217728 - 4 * 1024 * 1024)) 0x30),
                         Sleep 10,
                         Tx (spec_readRom (drop_bit 1 (134217728 - 4 * 1024 * 1024)) 2)])
                     270 fast_qa_signals 1 [] (world0 first_window_device (\<lambda>_. True)))"
  by (simp add: QualityCheckWorker_run_def qa_step_def qa_flash_def qa_fast_flash_def io_simps
        write_mode_eff identity_mapping_eff getRomCFI_adv sent_adv first_window_device_def
        answering_def parse_cfi_128MiB randint_def py_floordiv_def py_range_32 upt_32
        eraseSector_ready eraseSector_timeout polled_word_def unpack_H_def test_count_of_def
        fast_flash_only_def progress_entering_def progress_completed_def ebind_def two_polls
        drop_bit_eq_div fast_qa_wire_before_def first_window_erases_def fast_qa_signals_def
        spec_erase_sector_writes_def)

lemma magic_value_simps:
  "magic_value (Sleep ms) = None"
  "magic_value (Tx (spec_readRom a n)) = None"
  by (simp_all add: magic_value_def spec_readRom_def spec_frame_def le16_def le32_def)

lemma fast_qa_mapping_before: "active_mapping fast_qa_wire_before = [0, 1, 2, 3, 4, 5, 6, 7]"
  by (simp add: active_mapping_def fast_qa_wire_before_def first_window_erases_def
        spec_mode_set_writes_def mapping_quads_def spec_cfi_query_def py_range_32
        spec_erase_sector_writes_def List.map_filter_def magic_value_def spec_writeRom_def
        spec_readRom_def spec_frame_def le16_def le32_def drop_bit_eq_div)

text \<open>
  Claim C1 says that every logical byte offset \<open>L\<close> a plan touches is accessed under a
  mapping with \<open>mapping[0] = (L / SEGMENT) * 8\<close>, \<open>SEGMENT\<close> being 32 MiB. The erase,
  program and verify loops of the production worker and the loop of the backup worker
  compare the segment of the offset with \<open>current_segment\<close> and set the mapping of the new
  segment before they touch it (for the backup loop this is proved in the last section).
  The fast Flash check of the quality worker does not: it
  sets the identity mapping once and then passes every offset of its regions, up to
  \<open>device_size\<close>, to \<open>eraseSector\<close> and \<open>readRom\<close> as it is. On a 128 MiB Flash with sectors of
  128 KiB it erases the 32 sectors of the first 4 MiB and then issues the erase of the
  sector at \<open>L = device_size - 4 MiB = 124 MiB\<close> (segment 3, so \<open>mapping[0]\<close> should be 24)
  while the mapping on the device is still the identity. (The device of the run answers
  the polls of the first 32 erases and lets the poll of the 33rd time out.)
\<close>

theorem fast_qa_erases_beyond_the_window:
  "\<exists>s'. QualityCheckWorker_run fast_flash_only (world0 first_window_device (\<lambda>_. True)) =
       Some (Inr (), s') \<and>
     wire s' = fast_qa_wire_before @
        [Tx (spec_writeRom (drop_bit 1 (134217728 - 4 * 1024 * 1024)) 0x30),
         Sleep 10,
         Tx (spec_readRom (drop_bit 1 (134217728 - 4 * 1024 * 1024)) 2)] \<and>
     active_mapping fast_qa_wire_before = [0, 1, 2, 3, 4, 5, 6, 7] \<and>
     active_mapping fast_qa_wire_before ! 0 \<noteq>
       ((134217728 - 4 * 1024 * 1024) div (32 * 1024 * 1024)) * 8"
  by (simp add: fast_qa_run fast_qa_mapping_before)

section \<open>Cancellation in the other workers\<close>

text \<open>
  The backup worker reads the flag once more after its loop and reports a cancelled run
  as failed. The production worker does so after its program loop, but not after its
  verify loop: a run whose flag is cleared between the two skips the read-back and still
  reports success.
\<close>

lemma backup_cancelled_reports_failure:
  assumes stop: "\<forall>k. \<not> running s k"
    and C: "parse_cfi (drop 2 (take 22 (dev s (reads s + 37)))) = Inr c"
  shows "\<exists>s'. BackupFlashWorker_run backup_size s = Some (Inr (), s') \<and>
     last (signals s') = Finished (port_name s) False \<and>
     Finished (port_name s) True \<notin> set (signals s') - set (signals s)"
proof -
  have C': "parse_cfi (drop 2 (take 22 (dev s (37 + reads s)))) = Inr c"
    using C by (simp add: add.commute)
  have m: "set_sc_mode 0 0 0 0 8 s' = Some (Inr True, sent (spec_mode_set_writes 0x80) 4 s')" for s'
  proof -
    have c: "sc_config 0 0 0 0 8 = 0x80" by (simp add: sc_config_def push_bit_eq_mult)
    show ?thesis using set_sc_mode_eff[of 0 0 0 0 8 s'] by (simp add: c spec_mode_set_writes_def)
  qed
  show ?thesis
    using stop
    by (cases "0 < min backup_size (cfi_device_size c)")
       (simp_all add: BackupFlashWorker_run_def io_simps m identity_mapping_eff sleep_ms_eff
          sent_adv getRomCFI_adv C')
qed

lemma production_cancelled_before_verify:
  assumes R: "\<forall>k<3. running s (polls s + k)" and stop: "\<not> running s (polls s + 3)"
    and C: "parse_cfi (drop 2 (take 22 (dev s (reads s + 37)))) = Inr c"
    and SS: "cfi_sector_size c \<noteq> 0" and BW: "cfi_buffer_write_bytes c < 65536"
    and E: "\<forall>k<n. \<exists>v. polled_word s (reads s + 45 + k) = Inr v \<and> v \<noteq> 0xffff"
       "polled_word s (reads s + 45 + n) = Inr 0xffff"
    and P: "take 1 (dev s (reads s + 82 + n)) = [0xAA]"
  shows "\<exists>s'. ProductionWorker_run [1, 2, 3] s = Some (Inr (), s') \<and>
     reads s' = reads s + 115 + n \<and>
     last (wire s') \<noteq> Tx (spec_readRom 0 4) \<and>
     last (signals s') = Finished (port_name s) True"
proof -
  from parse_cfi_ranges[OF C] SS have ss: "256 \<le> cfi_sector_size c" and bw: "0 \<le> cfi_buffer_write_bytes c"
    by simp_all
  have C': "parse_cfi (drop 2 (take 22 (dev s (37 + reads s)))) = Inr c"
    using C by (simp add: add.commute)
  have q: "py_floordiv 3 (cfi_sector_size c) = Inr 0" using ss by (simp add: py_floordiv_def)
  have r: "running s (polls s)" "running s (Suc (polls s))" "running s (Suc (Suc (polls s)))"
    using R[rule_format, of 0] R[rule_format, of 1] R[rule_format, of 2]
    by (simp_all add: numeral_eq_Suc)
  have P': "take 1 (dev s (reads s + (82 + n))) = [0xAA]"
    using P by (simp_all add: add.assoc)
  have e: "eraseSector 0 sw (adv A 39 G (Suc 0) [] s) =
      Some (Inr True, adv (A @ spec_erase_sector_writes 0 @ [Sleep 10] @ spec_erase_polls 0 n)
                        (46 + n) G (Suc 0) [] s)" for A G sw
    using eraseSector_returns[of 0 n "adv A 39 G (Suc 0) [] s" sw] E
    by (simp add: sent_adv ac_simps)
  show ?thesis
    using P' stop
    by (simp add: ProductionWorker_run_def io_simps write_mode_eff identity_mapping_eff sleep_ms_eff sent_adv
       getRomCFI_adv C' q py_range_def r switch_segment_def int_scaled_1_1_50
       int_scaled_2048_4_50 e
       py_slice_def programRom_eff bw BW two_polls readRom_eff mapping_quads_def
       spec_writeRom_def spec_readRom_def spec_frame_def)
qed

section \<open>Segments in the backup loop\<close>

text \<open>
  The windowing that the fast Flash check lacks, as the backup loop does it. For every
  device and every size up to \<open>2^38\<close>, a backup loop that is not cancelled sends, for each
  offset \<open>L = 0, 4096, 8192, \<dots>\<close> below the size, first the mapping
  \<open>[seg * 8 + i for i in 0..7]\<close> of \<open>seg = L / 32 MiB\<close> when \<open>L\<close> is the first offset of a
  segment other than segment 0 (whose identity mapping the worker sets before the loop),
  then the read at the word address \<open>(L mod 32 MiB) >> 1\<close>.
\<close>

lemma map_upt_Suc_head: "map f [0..<Suc n] = f 0 # map (\<lambda>k. f (Suc k)) [0..<n]"
  by (simp add: upt_conv_Cons map_Suc_upt[symmetric] del: upt_Suc)

lemma segment_of_previous_chunk:
  fixes rb :: int
  assumes "0 < rb" "rb mod 4096 = 0"
  shows "(rb div 33554432 \<noteq> (rb - 4096) div 33554432) = (rb mod 33554432 = 0)"
proof -
  define q where "q = rb div 33554432"
  define m where "m = rb mod 33554432"
  have rb: "rb = 33554432 * q + m" and m: "0 \<le> m" "m < 33554432"
    by (simp_all add: q_def m_def)
  have "rb = m + 4096 * (8192 * q)" using rb by simp
  then have "rb mod 4096 = (m + 4096 * (8192 * q)) mod 4096" by simp
  also have "\<dots> = m mod 4096" by (rule mod_mult_self2)
  finally have m4: "m mod 4096 = 0" using assms by simp
  show ?thesis
  proof (cases "m = 0")
    case True
    have "rb - 4096 = 33554432 * (q - 1) + 33550336" using rb True by simp
    then have "(rb - 4096) div 33554432 = q - 1"
      by (rule int_div_pos_eq) simp_all
    then show ?thesis using True by (simp add: q_def[symmetric] m_def[symmetric])
  next
    case False
    have "4096 \<le> m"
    proof (rule ccontr)
      assume "\<not> 4096 \<le> m"
      with m have "m mod 4096 = m" by simp
      with m4 False show False by simp
    qed
    then have "rb - 4096 = 33554432 * q + (m - 4096)" "0 \<le> m - 4096" "m - 4096 < 33554432"
      using rb m by simp_all
    then have "(rb - 4096) div 33554432 = q"
      by (rule int_div_pos_eq)
    then show ?thesis using False by (simp add: q_def[symmetric] m_def[symmetric])
  qed
qed

lemma py_range3_4096_Nil: "b \<le> a \<Longrightarrow> py_range3 a b 4096 = []"
  by (simp add: py_range3_def)

lemma py_range3_4096_Cons:
  assumes "a < b"
  shows "py_range3 a b 4096 = a # py_range3 (a + min 4096 (b - a)) b 4096"
proof -
  have d: "(b - a + 4096 - 1) div 4096 = (b - (a + 4096) + 4096 - 1) div 4096 + 1"
    by simp
  have pos: "0 \<le> (b - (a + 4096) + 4096 - 1) div 4096" using assms by simp
  have n: "nat ((b - a + 4096 - 1) div 4096) = Suc (nat ((b - (a + 4096) + 4096 - 1) div 4096))"
    using d pos by simp
  have "py_range3 a b 4096 = a # py_range3 (a + 4096) b 4096"
    unfolding py_range3_def n map_upt_Suc_head by (simp add: algebra_simps)
  moreover have "py_range3 (a + 4096) b 4096 = py_range3 (a + min 4096 (b - a)) b 4096"
  proof (cases "4096 \<le> b - a")
    case True
    then show ?thesis by (simp add: min_def)
  next
    case False
    then show ?thesis by (simp add: min_def py_range3_4096_Nil)
  qed
  ultimately show ?thesis by simp
qed

lemma segment_mapping_range:
  "0 \<le> seg \<Longrightarrow> seg < 8192 \<Longrightarrow> list_all (\<lambda>e. 0 \<le> e \<and> e < 65536) (segment_mapping (seg * 8))"
  by (simp add: segment_mapping_def)

lemma switch_segment_eff:
  assumes "0 \<le> seg" "seg < 8192"
  shows "switch_segment seg cur (emit g) s =
     Some (Inr seg,
       if seg \<noteq> cur
       then adv (mapping_quads (segment_mapping (seg * 8))) 32 [g (port_name s)] 0 [] s
       else s)"
  using segment_mapping_range[OF assms]
  by (simp add: switch_segment_def io_simps set_flashmapping_eff sent_adv segment_mapping_def)

lemma same_call_witness: "f X = f X \<and> P X \<Longrightarrow> \<exists>s1. f X = f s1 \<and> P s1"
  by blast

lemma backup_loop_step:
  assumes run: "running s (polls s)" and lt: "rb < total_size" and nn: "0 \<le> rb"
    and al: "rb mod 4096 = 0" and tot: "total_size \<le> 274877906944"
    and cur: "cur = (if rb = 0 then 0 else (rb - 4096) div 33554432)"
  shows "\<exists>s1. backup_loop total_size rb cur s =
           backup_loop total_size (rb + min 4096 (total_size - rb)) (rb div 33554432) s1 \<and>
         wire s1 = wire s @ spec_windowed_read total_size rb \<and> running s1 = running s"
proof -
  have seg: "0 \<le> rb div 33554432" "rb div 33554432 < 8192"
    using nn lt tot by simp_all
  have sw: "(rb div 33554432 \<noteq> cur) = (rb \<noteq> 0 \<and> rb mod 33554432 = 0)"
  proof (cases "rb = 0")
    case True
    with cur show ?thesis by simp
  next
    case False
    with nn have "0 < rb" by simp
    from segment_of_previous_chunk[OF this al] cur False show ?thesis by simp
  qed
  have a: "0 \<le> rb mod 33554432 div 2" "rb mod 33554432 div 2 < 2147483648"
    by simp_all
  have n: "0 \<le> min 4096 (total_size - rb)" "min 4096 (total_size - rb) < 65536"
    using lt by simp_all
  have r: "readRom (rb mod 33554432 div 2) (min 4096 (total_size - rb)) s' =
     Some (Inr (drop 2 (take (nat (min 4096 (total_size - rb) + 2)) (dev s' (reads s')))),
           adv [Tx (spec_readRom (rb mod 33554432 div 2) (min 4096 (total_size - rb)))] 1 [] 0 [] s')" for s'
    using readRom_eff[OF a n] by (simp add: sent_adv)
  show ?thesis
    apply (subst backup_loop.simps)
    using run lt sw
    apply (simp add: io_simps switch_segment_eff[OF seg] r file_write_adv drop_bit_eq_div
          spec_windowed_read_def del: backup_loop.simps)
    apply (intro conjI impI)
    apply (rule same_call_witness, simp)+
    done
qed

lemma backup_loop_windowed:
  assumes "\<forall>k. running s k" and "0 \<le> rb" and "total_size \<le> 274877906944"
    and "total_size \<le> rb \<or>
         (rb mod 4096 = 0 \<and> cur = (if rb = 0 then 0 else (rb - 4096) div 33554432))"
  shows "\<exists>s'. backup_loop total_size rb cur s = Some (Inr (), s') \<and>
     wire s' = wire s @ concat (map (spec_windowed_read total_size) (py_range3 rb total_size 4096)) \<and>
     running s' = running s"
  using assms
proof (induction total_size rb cur arbitrary: s rule: backup_loop.induct)
  case (1 total_size rb cur)
  show ?case
  proof (cases "rb < total_size")
    case False
    then have "backup_loop total_size rb cur s = Some (Inr (), s)"
      by (subst backup_loop.simps) (simp add: ret_def)
    with False show ?thesis by (simp add: py_range3_4096_Nil)
  next
    case True
    let ?rb = "rb + min 4096 (total_size - rb)"
    from True "1.prems" have al: "rb mod 4096 = 0"
      and cur: "cur = (if rb = 0 then 0 else (rb - 4096) div 33554432)" by auto
    from "1.prems"(1) have run: "running s (polls s)" by simp
    from backup_loop_step[OF run True "1.prems"(2) al "1.prems"(3) cur] obtain s1 where
      s1: "backup_loop total_size rb cur s = backup_loop total_size ?rb (rb div 33554432) s1"
      "wire s1 = wire s @ spec_windowed_read total_size rb" "running s1 = running s"
      by blast
    have r1: "\<forall>k. running s1 k" using s1(3) "1.prems"(1) by simp
    have nn: "0 \<le> ?rb" using "1.prems"(2) True by simp
    have next_ok: "total_size \<le> ?rb \<or>
         (?rb mod 4096 = 0 \<and> rb div 33554432 = (if ?rb = 0 then 0 else (?rb - 4096) div 33554432))"
    proof (cases "4096 \<le> total_size - rb")
      case True
      then have "?rb = rb + 4096" by simp
      with al "1.prems"(2) show ?thesis by simp
    next
      case False
      then show ?thesis by simp
    qed
    from "1.IH"[OF True TrueI r1 nn "1.prems"(3) next_ok]
    obtain s' where s': "backup_loop total_size ?rb (rb div 33554432) s1 = Some (Inr (), s')"
      "wire s' = wire s1 @ concat (map (spec_windowed_read total_size) (py_range3 ?rb total_size 4096))"
      "running s' = running s1" by auto
    with s1 show ?thesis
      by (simp add: py_range3_4096_Cons[OF True])
  qed
qed

lemma segment_mapping_first: "segment_mapping (seg * 8) ! 0 = seg * 8"
  by (simp add: segment_mapping_def)

end
